theory Spec2Isabelle
  imports Complex_Main "HOL-Library.AList"
begin

section \<open>Strings as the relay uses them\<close>

text \<open>
  A JavaScript string is modelled as a \<^typ>\<open>string\<close>, one \<^typ>\<open>char\<close> per code unit;
  the transport chunks of a vendor body are modelled after \<^verbatim>\<open>TextDecoder.decode\<close>,
  that is as pieces of text.  The functions below are the \<^verbatim>\<open>String.prototype\<close>
  methods that \<^verbatim>\<open>src/index.ts\<close> calls.
\<close>

definition newline :: char where
  "newline = CHR 0x0A"

text \<open>The white space and line terminators that \<^verbatim>\<open>trim\<close> strips (those below 256).\<close>

definition isWhiteSpace :: "char \<Rightarrow> bool" where
  "isWhiteSpace c =
     (c = CHR 0x09 \<or> c = CHR 0x0A \<or> c = CHR 0x0B \<or> c = CHR 0x0C \<or> c = CHR 0x0D
      \<or> c = CHR 0x20 \<or> c = CHR 0xA0)"

definition trim :: "string \<Rightarrow> string" where
  "trim s = rev (dropWhile isWhiteSpace (rev (dropWhile isWhiteSpace s)))"

definition startsWith :: "string \<Rightarrow> string \<Rightarrow> bool" where
  "startsWith s p = (take (length p) s = p)"

text \<open>\<^verbatim>\<open>s.indexOf(c)\<close> for a one-character needle; \<open>None\<close> stands for \<^verbatim>\<open>-1\<close>.\<close>

fun indexOf :: "string \<Rightarrow> char \<Rightarrow> nat option" where
  "indexOf [] c = None"
| "indexOf (x # xs) c = (if x = c then Some 0 else map_option Suc (indexOf xs c))"

text \<open>\<^verbatim>\<open>s.split(sep)\<close> for a one-character separator: never empty, \<^verbatim>\<open>"".split("\n")\<close> is \<^verbatim>\<open>[""]\<close>.\<close>

fun split :: "string \<Rightarrow> char \<Rightarrow> string list" where
  "split [] sep = [[]]"
| "split (c # cs) sep =
     (if c = sep then [] # split cs sep
      else (case split cs sep of [] \<Rightarrow> [[c]] | l # ls \<Rightarrow> (c # l) # ls))"

text \<open>
  \<^verbatim>\<open>s.toLowerCase()\<close>, letter by letter on the ASCII letters.  No other code unit
  lower-cases to an ASCII letter, so a comparison of the result with \<^verbatim>\<open>"false"\<close> is
  the same as in JavaScript.
\<close>

definition lowerChar :: "char \<Rightarrow> char" where
  "lowerChar c =
     (case map_of (zip ''ABCDEFGHIJKLMNOPQRSTUVWXYZ'' ''abcdefghijklmnopqrstuvwxyz'') c of
        None \<Rightarrow> c
      | Some l \<Rightarrow> l)"

definition toLowerCase :: "string \<Rightarrow> string" where
  "toLowerCase s = map lowerChar s"

text \<open>The decimal rendering of a number inside a template literal.\<close>

fun digitChar :: "nat \<Rightarrow> char" where
  "digitChar n = ''0123456789'' ! (n mod 10)"

fun numberToString :: "nat \<Rightarrow> string" where
  "numberToString n =
     (if n < 10 then [digitChar n] else numberToString (n div 10) @ [digitChar n])"

section \<open>The runtime the relay calls into\<close>

text \<open>
  \<^verbatim>\<open>JSON.parse\<close>, \<^verbatim>\<open>uuidv4\<close> and \<^verbatim>\<open>Date.now\<close> belong to the runtime, not to the relay;
  the development is parametric in them.  A vendor event is declared in \<^verbatim>\<open>types.ts\<close> as
  \<^verbatim>\<open>{ text?: string; finish_reason?: string | null }\<close>.
\<close>

datatype finish_reason = Absent | Null | Reason string

record RaycastSSEData =
  sse_text :: "string option"
  sse_finish_reason :: finish_reason

text \<open>
  What \<^verbatim>\<open>JSON.parse(s)\<close> does: it throws, it returns \<^verbatim>\<open>null\<close> (any later property
  access then throws), or it returns a value whose two fields can be read.
\<close>

datatype parsed = SyntaxError | JsonNull | JsonValue RaycastSSEData

type_synonym json_parse = "string \<Rightarrow> parsed"

text \<open>The \<open>n\<close>-th call of \<^verbatim>\<open>uuidv4()\<close> and the \<open>n\<close>-th reading of \<^verbatim>\<open>Date.now()\<close> (milliseconds).\<close>

record runtime =
  uuidv4 :: "nat \<Rightarrow> string"
  Date_now :: "nat \<Rightarrow> nat"

section \<open>Streaming: \<^verbatim>\<open>handleStreamingResponse\<close>\<close>

record chunk =
  chunk_id :: string
  chunk_object :: string
  chunk_created :: nat
  chunk_model :: string
  choice_index :: nat
  delta_content :: string
  choice_finish_reason :: "string option"

text \<open>What the writer is given: a \<^verbatim>\<open>data: <chunk>\<close> event or the \<^verbatim>\<open>data: [DONE]\<close> sentinel.\<close>

datatype sse_out = Data chunk | DONE

record stream_state =
  written :: "sse_out list"
  streamFinished :: bool
  uuid_calls :: nat
  clock_reads :: nat

text \<open>
  The body of the inner loop for one trimmed line (lines 316 to 355).  The object literal
  calls \<^verbatim>\<open>uuidv4()\<close> and \<^verbatim>\<open>Date.now()\<close> before it reads \<^verbatim>\<open>jsonData.text\<close>, so a
  \<^verbatim>\<open>null\<close> payload uses up one of each and writes nothing.
\<close>

definition handleLine ::
  "json_parse \<Rightarrow> runtime \<Rightarrow> string \<Rightarrow> string \<Rightarrow> stream_state \<Rightarrow> stream_state" where
  "handleLine parse rt requestedModelId line st =
     (if startsWith line ''data:'' then
        (let dataContent = trim (drop 5 line) in
         if dataContent = ''[DONE]'' then st
         else
           (case parse dataContent of
              SyntaxError \<Rightarrow> st
            | JsonNull \<Rightarrow>
                st\<lparr>uuid_calls := Suc (uuid_calls st), clock_reads := Suc (clock_reads st)\<rparr>
            | JsonValue jsonData \<Rightarrow>
                (let c = \<lparr>chunk_id = ''chatcmpl-'' @ uuidv4 rt (uuid_calls st),
                          chunk_object = ''chat.completion.chunk'',
                          chunk_created = Date_now rt (clock_reads st) div 1000,
                          chunk_model = requestedModelId,
                          choice_index = 0,
                          delta_content =
                            (case sse_text jsonData of None \<Rightarrow> [] | Some t \<Rightarrow> t),
                          choice_finish_reason =
                            (case sse_finish_reason jsonData of
                               Absent \<Rightarrow> None | Null \<Rightarrow> None | Reason r \<Rightarrow> Some r)\<rparr>;
                     st1 = st\<lparr>written := written st @ [Data c],
                              uuid_calls := Suc (uuid_calls st),
                              clock_reads := Suc (clock_reads st)\<rparr>
                 in (case sse_finish_reason jsonData of
                       Reason r \<Rightarrow> st1\<lparr>streamFinished := True\<rparr>
                     | _ \<Rightarrow> st1))))
      else st)"

lemma indexOf_Some_less: "indexOf s c = Some i \<Longrightarrow> i < length s"
  by (induction s arbitrary: i) (auto split: if_splits)

text \<open>The inner loop (lines 312 to 356): it runs while the buffer holds a newline.\<close>

function drain ::
  "json_parse \<Rightarrow> runtime \<Rightarrow> string \<Rightarrow> string \<Rightarrow> stream_state \<Rightarrow> string \<times> stream_state" where
  "drain parse rt requestedModelId buffer st =
     (case indexOf buffer newline of
        None \<Rightarrow> (buffer, st)
      | Some newlineIndex \<Rightarrow>
          drain parse rt requestedModelId (drop (newlineIndex + 1) buffer)
            (handleLine parse rt requestedModelId (trim (take newlineIndex buffer)) st))"
  by pat_completeness auto
termination
  by (relation "measure (\<lambda>(parse, rt, m, buffer, st). length buffer)")
     (auto dest: indexOf_Some_less)

text \<open>
  The outer loop (lines 303 to 357) over the reads of the transport: each read delivers
  one chunk, the read after the last one reports \<^verbatim>\<open>done\<close>.  This is the loop on a
  body that arrives whole, with a client that takes every write; a body whose first read
  throws is dealt with in \<open>handleChatCompletions\<close> below, where the response is built.
\<close>

fun pump ::
  "json_parse \<Rightarrow> runtime \<Rightarrow> string \<Rightarrow> string list \<Rightarrow> string \<Rightarrow> stream_state \<Rightarrow> stream_state" where
  "pump parse rt requestedModelId [] buffer st =
     (if streamFinished st then st else st\<lparr>streamFinished := True\<rparr>)"
| "pump parse rt requestedModelId (v # reads) buffer st =
     (if streamFinished st then st
      else (case drain parse rt requestedModelId (buffer @ v) st of
              (buffer', st') \<Rightarrow> pump parse rt requestedModelId reads buffer' st'))"

text \<open>
  The whole background loop: a response without a body closes the writer at once; otherwise
  the loop runs and the sentinel is written.  \<open>u\<close> and \<open>t\<close> count the calls of
  \<^verbatim>\<open>uuidv4\<close> and \<^verbatim>\<open>Date.now\<close> made before.  The result is everything written.
\<close>

definition handleStreamingResponse ::
  "json_parse \<Rightarrow> runtime \<Rightarrow> nat \<Rightarrow> nat \<Rightarrow> string list option \<Rightarrow> string \<Rightarrow> sse_out list" where
  "handleStreamingResponse parse rt u t body requestedModelId =
     (case body of
        None \<Rightarrow> []
      | Some reads \<Rightarrow>
          written (pump parse rt requestedModelId reads []
                     \<lparr>written = [], streamFinished = False, uuid_calls = u, clock_reads = t\<rparr>)
          @ [DONE])"

section \<open>Non-streaming: \<^verbatim>\<open>parseSSEResponse\<close> and \<^verbatim>\<open>handleNonStreamingResponse\<close>\<close>

text \<open>The body of the \<^verbatim>\<open>for\<close> loop of \<^verbatim>\<open>parseSSEResponse\<close>: one line, and the text so far.\<close>

definition addLine :: "json_parse \<Rightarrow> string \<Rightarrow> string \<Rightarrow> string" where
  "addLine parse fullText line =
     (if startsWith line ''data:'' then
        (case parse (trim (drop 5 line)) of
           SyntaxError \<Rightarrow> fullText
         | JsonNull \<Rightarrow> fullText
         | JsonValue jsonData \<Rightarrow>
             (case sse_text jsonData of
                None \<Rightarrow> fullText
              | Some t \<Rightarrow> if t \<noteq> [] then fullText @ t else fullText))
      else fullText)"

definition parseSSEResponse :: "json_parse \<Rightarrow> string \<Rightarrow> string" where
  "parseSSEResponse parse responseText =
     foldl (addLine parse) [] (split responseText newline)"

record OpenAIChatResponse =
  completion_id :: string
  completion_object :: string
  completion_created :: nat
  completion_model :: string
  message_role :: string
  message_content :: string
  completion_finish_reason :: "string option"
  prompt_tokens :: nat
  completion_tokens :: nat
  total_tokens :: nat
  service_tier :: string

text \<open>\<^verbatim>\<open>response.text()\<close> is the concatenation of everything the transport delivers.\<close>

definition handleNonStreamingResponse ::
  "json_parse \<Rightarrow> runtime \<Rightarrow> nat \<Rightarrow> nat \<Rightarrow> string list option \<Rightarrow> string \<Rightarrow> OpenAIChatResponse" where
  "handleNonStreamingResponse parse rt u t body requestedModelId =
     (let responseText = (case body of None \<Rightarrow> [] | Some reads \<Rightarrow> concat reads);
          fullText = parseSSEResponse parse responseText
      in \<lparr>completion_id = ''chatcmpl-'' @ uuidv4 rt u,
          completion_object = ''chat.completion'',
          completion_created = Date_now rt t div 1000,
          completion_model = requestedModelId,
          message_role = ''assistant'',
          message_content = fullText,
          completion_finish_reason = Some ''stop'',
          prompt_tokens = 0,
          completion_tokens = 0,
          total_tokens = 0,
          service_tier = ''default''\<rparr>)"

section \<open>Request translation: \<^verbatim>\<open>convertMessages\<close>\<close>

record OpenAIMessage =
  role :: string
  content :: string

record RaycastMessage =
  author :: string
  content_text :: string

text \<open>The \<^verbatim>\<open>forEach\<close> callback with its index, threading the two variables it assigns.\<close>

fun convertLoop ::
  "OpenAIMessage list \<Rightarrow> nat \<Rightarrow> RaycastMessage list \<times> string \<Rightarrow> RaycastMessage list \<times> string" where
  "convertLoop [] index acc = acc"
| "convertLoop (msg # msgs) index (raycastMessages, systemInstruction) =
     convertLoop msgs (Suc index)
       (if role msg = ''system'' \<and> index = 0 then (raycastMessages, content msg)
        else if role msg = ''user'' \<or> role msg = ''assistant'' then
          (raycastMessages @ [\<lparr>author = role msg, content_text = content msg\<rparr>],
           systemInstruction)
        else (raycastMessages, systemInstruction))"

definition convertMessages :: "OpenAIMessage list \<Rightarrow> RaycastMessage list \<times> string" where
  "convertMessages openaiMessages = convertLoop openaiMessages 0 ([], ''markdown'')"

section \<open>The model catalog: \<^verbatim>\<open>fetchModels\<close> and \<^verbatim>\<open>getProviderInfo\<close>\<close>

definition DEFAULT_MODEL_ID :: string where
  "DEFAULT_MODEL_ID = ''openai-gpt-4o-mini''"

definition DEFAULT_PROVIDER :: string where
  "DEFAULT_PROVIDER = ''openai''"

definition DEFAULT_INTERNAL_MODEL :: string where
  "DEFAULT_INTERNAL_MODEL = ''gpt-4o-mini''"

record Env =
  RAYCAST_BEARER_TOKEN :: string
  API_KEY :: "string option"
  ADVANCED :: "string option"
  INCLUDE_DEPRECATED :: "string option"

record RaycastRawModelData =
  raw_id :: string
  raw_model :: string
  raw_name :: string
  raw_provider :: string
  requires_better_ai :: bool
  availability :: string

record ModelInfo =
  provider :: string
  model :: string

text \<open>
  What a \<^verbatim>\<open>fetch\<close> gives: it throws (with a message), or it returns a response with a
  status and a body.  \<^verbatim>\<open>response.ok\<close> is a status from 200 to 299.
\<close>

datatype 'b fetched = NetworkError string | Response nat 'b

definition ok :: "nat \<Rightarrow> bool" where
  "ok status = (200 \<le> status \<and> status \<le> 299)"

text \<open>The body of the model-list response: not JSON, JSON without \<^verbatim>\<open>models\<close>, or the list.\<close>

datatype models_body = InvalidJson | NoModelsField | ModelList "RaycastRawModelData list"

definition showAdvanced :: "Env \<Rightarrow> bool" where
  "showAdvanced env = (case ADVANCED env of None \<Rightarrow> True | Some v \<Rightarrow> toLowerCase v \<noteq> ''false'')"

definition includeDeprecated :: "Env \<Rightarrow> bool" where
  "includeDeprecated env =
     (case INCLUDE_DEPRECATED env of None \<Rightarrow> True | Some v \<Rightarrow> toLowerCase v \<noteq> ''false'')"

text \<open>
  A \<^verbatim>\<open>Map<string, ModelInfo>\<close> is an association list in insertion order;
  \<^verbatim>\<open>models.set\<close> is \<^const>\<open>AList.update\<close>.  The loop of lines 65 to 82:
\<close>

fun filterModels ::
  "bool \<Rightarrow> bool \<Rightarrow> RaycastRawModelData list \<Rightarrow> (string \<times> ModelInfo) list \<Rightarrow> (string \<times> ModelInfo) list" where
  "filterModels showAdv inclDep [] models = models"
| "filterModels showAdv inclDep (modelData # rest) models =
     (let isPremium = requires_better_ai modelData;
          isDeprecated = (availability modelData = ''deprecated'')
      in if (showAdv \<or> \<not> isPremium) \<and> (inclDep \<or> \<not> isDeprecated) then
           filterModels showAdv inclDep rest
             (AList.update (raw_id modelData)
                \<lparr>provider = raw_provider modelData, model = raw_model modelData\<rparr> models)
         else filterModels showAdv inclDep rest models)"

definition fetchModels :: "Env \<Rightarrow> models_body fetched \<Rightarrow> (string \<times> ModelInfo) list" where
  "fetchModels env reply =
     (case reply of
        NetworkError e \<Rightarrow> []
      | Response status body \<Rightarrow>
          if \<not> ok status then []
          else (case body of
                  InvalidJson \<Rightarrow> []
                | NoModelsField \<Rightarrow> []
                | ModelList ms \<Rightarrow> filterModels (showAdvanced env) (includeDeprecated env) ms []))"

definition getProviderInfo :: "string \<Rightarrow> (string \<times> ModelInfo) list \<Rightarrow> ModelInfo" where
  "getProviderInfo modelId models =
     (case map_of models modelId of
        Some info \<Rightarrow> info
      | None \<Rightarrow> \<lparr>provider = DEFAULT_PROVIDER, model = DEFAULT_INTERNAL_MODEL\<rparr>)"

section \<open>The endpoint: \<^verbatim>\<open>handleChatCompletions\<close>\<close>

record OpenAIChatRequest =
  messages :: "OpenAIMessage list option"
  requested_model :: "string option"
  temperature :: "real option"
  stream :: "bool option"

record RaycastChatRequest =
  vendor_model :: string
  vendor_provider :: string
  vendor_messages :: "RaycastMessage list"
  system_instruction :: string
  vendor_temperature :: real
  additional_system_instructions :: string
  vendor_debug :: bool
  vendor_locale :: string
  vendor_source :: string
  thread_id :: string
  vendor_tools :: "(string \<times> string) list"

text \<open>
  What the handler's promise settles to: the JSON error envelope of \<^verbatim>\<open>errorResponse\<close>
  (status, message, type; the code is always \<^verbatim>\<open>null\<close>), an event stream with what is
  written on it, an event stream on which nothing is written and whose writer is aborted
  with an error, a completion object, or no response at all: the promise rejects.
\<close>

datatype http_response =
    JsonError nat string string
  | EventStream "sse_out list"
  | AbortedStream string
  | Completion OpenAIChatResponse
  | Rejected string

text \<open>
  The body of a vendor response: it arrives whole (its reads in order; \<open>None\<close> when the
  response has no body), or reading it throws before anything has arrived.
\<close>

datatype vendor_body = Delivered "string list option" | ReadFails string

definition errorResponse :: "string \<Rightarrow> nat \<Rightarrow> string \<Rightarrow> http_response" where
  "errorResponse message status type = JsonError status message type"

text \<open>
  The handler, given what the outside does: \<open>body\<close> is what \<^verbatim>\<open>req.json()\<close> gives (\<open>Inl\<close>
  the message of what it throws), \<open>modelsReply\<close> what the model-list endpoint answers,
  \<open>vendorChat\<close> what the chat endpoint answers to a request (its status and its body).
  The result is the response and the requests posted to the chat endpoint.  Every
  \<^verbatim>\<open>throw\<close> and every rejection that is awaited inside lands in the \<^verbatim>\<open>catch\<close> of lines
  269 to 276; so does \<^verbatim>\<open>await raycastResponse.text()\<close> of line 256, which reads the
  vendor's error body for the log.  The \<^verbatim>\<open>return\<close> of lines 266 to 268 does not await:
  when \<^verbatim>\<open>response.text()\<close> throws inside \<^verbatim>\<open>handleNonStreamingResponse\<close> the promise
  returned rejects, and when the first \<^verbatim>\<open>reader.read()\<close> throws inside
  \<^verbatim>\<open>handleStreamingResponse\<close> its \<^verbatim>\<open>catch\<close> aborts the writer (lines 360 to 362).
\<close>

definition handleChatCompletions ::
  "json_parse \<Rightarrow> runtime \<Rightarrow> Env \<Rightarrow> string + OpenAIChatRequest \<Rightarrow> models_body fetched \<Rightarrow>
   (RaycastChatRequest \<Rightarrow> vendor_body fetched) \<Rightarrow>
   http_response \<times> RaycastChatRequest list" where
  \<open>handleChatCompletions parse rt env body modelsReply vendorChat =
     (case body of
        Inl e \<Rightarrow> (errorResponse (''Chat completion failed: '' @ e) 500 ''relay_error'', [])
      | Inr b \<Rightarrow>
         (let requestedModelId =
                (case requested_model b of None \<Rightarrow> DEFAULT_MODEL_ID | Some m \<Rightarrow> m);
              temp = (case temperature b of None \<Rightarrow> 1 / 2 | Some x \<Rightarrow> x);
              streaming = (case stream b of None \<Rightarrow> False | Some x \<Rightarrow> x)
          in case messages b of
               None \<Rightarrow>
                 (errorResponse ''Missing or invalid 'messages' field'' 400
                    ''invalid_request_error'', [])
             | Some msgs \<Rightarrow>
                 if length msgs = 0 then
                   (errorResponse ''Missing or invalid 'messages' field'' 400
                      ''invalid_request_error'', [])
                 else
                   (let models = fetchModels env modelsReply in
                    if length models = 0 then
                      (errorResponse ''No models available. Check server configuration.'' 500
                         ''server_error'', [])
                    else
                      (let info = getProviderInfo requestedModelId models in
                       if map_of models requestedModelId = None then
                         (errorResponse
                            (''Model "'' @ requestedModelId @ ''" not available. Using default: ''
                               @ DEFAULT_MODEL_ID)
                            400 ''invalid_request_error'', [])
                       else
                         (case convertMessages msgs of
                            (raycastMessages, systemInstruction) \<Rightarrow>
                              (let raycastRequest =
                                     \<lparr>vendor_model = model info,
                                      vendor_provider = provider info,
                                      vendor_messages = raycastMessages,
                                      system_instruction = systemInstruction,
                                      vendor_temperature = temp,
                                      additional_system_instructions = [],
                                      vendor_debug = False,
                                      vendor_locale = ''en-US'',
                                      vendor_source = ''ai_chat'',
                                      thread_id = uuidv4 rt 0,
                                      vendor_tools = []\<rparr>
                               in case vendorChat raycastRequest of
                                    NetworkError e \<Rightarrow>
                                      (errorResponse (''Chat completion failed: '' @ e) 500
                                         ''relay_error'', [raycastRequest])
                                  | Response status vendorBody \<Rightarrow>
                                      if \<not> ok status then
                                        (case vendorBody of
                                           ReadFails e \<Rightarrow>
                                             (errorResponse (''Chat completion failed: '' @ e)
                                                500 ''relay_error'', [raycastRequest])
                                         | Delivered errorBody \<Rightarrow>
                                             (errorResponse
                                                (''Raycast API error (''
                                                   @ numberToString status @ '')'')
                                                502 ''bad_gateway'', [raycastRequest]))
                                      else if streaming then
                                        (case vendorBody of
                                           ReadFails e \<Rightarrow>
                                             (AbortedStream e, [raycastRequest])
                                         | Delivered reads \<Rightarrow>
                                             (EventStream
                                                (handleStreamingResponse parse rt 1 0 reads
                                                   requestedModelId), [raycastRequest]))
                                      else
                                        (case vendorBody of
                                           ReadFails e \<Rightarrow> (Rejected e, [raycastRequest])
                                         | Delivered reads \<Rightarrow>
                                             (Completion
                                                (handleNonStreamingResponse parse rt 1 0 reads
                                                   requestedModelId), [raycastRequest]))))))))\<close>

section \<open>Lines of a text\<close>

text \<open>The newline-terminated lines of a text, and what follows its last newline.\<close>

definition lines_of :: "string \<Rightarrow> string list" where
  "lines_of s = butlast (split s newline)"

definition rest_of :: "string \<Rightarrow> string" where
  "rest_of s = last (split s newline)"

section \<open>The specification's notions\<close>

text \<open>
  The definitions of this section follow the words of the specification, to be compared
  with the functions above.  A successfully parsed \<^verbatim>\<open>data:\<close> event of the non-streaming
  path: a line of the body that starts with \<^verbatim>\<open>data:\<close> and whose payload parses to a value.
\<close>

definition spec_event_of_line :: "json_parse \<Rightarrow> string \<Rightarrow> RaycastSSEData option" where
  "spec_event_of_line parse line =
     (if startsWith line ''data:'' then
        (case parse (trim (drop 5 line)) of JsonValue d \<Rightarrow> Some d | _ \<Rightarrow> None)
      else None)"

definition spec_parsed_events :: "json_parse \<Rightarrow> string \<Rightarrow> RaycastSSEData list" where
  "spec_parsed_events parse responseText =
     List.map_filter (spec_event_of_line parse) (split responseText newline)"

text \<open>The text an event contributes: its \<^verbatim>\<open>text\<close> field, the empty string when absent.\<close>

definition text_or_empty :: "RaycastSSEData \<Rightarrow> string" where
  "text_or_empty d = (case sse_text d of None \<Rightarrow> [] | Some t \<Rightarrow> t)"

text \<open>The image of a message in the vendor's format, and the roles that are forwarded.\<close>

definition toRaycast :: "OpenAIMessage \<Rightarrow> RaycastMessage" where
  "toRaycast m = \<lparr>author = role m, content_text = content m\<rparr>"

definition userOrAssistant :: "OpenAIMessage \<Rightarrow> bool" where
  "userOrAssistant m = (role m = ''user'' \<or> role m = ''assistant'')"

text \<open>The retention predicate of the catalog, in the specification's words.\<close>

definition spec_retained :: "bool \<Rightarrow> bool \<Rightarrow> RaycastRawModelData \<Rightarrow> bool" where
  "spec_retained showPremium inclDeprecated m =
     ((showPremium \<or> \<not> requires_better_ai m) \<and>
      (inclDeprecated \<or> \<not> availability m = ''deprecated''))"

text \<open>The catalog entry of a fetched model.\<close>

definition toInfo :: "RaycastRawModelData \<Rightarrow> ModelInfo" where
  "toInfo m = \<lparr>provider = raw_provider m, model = raw_model m\<rparr>"

text \<open>The model id a request asks for: its \<^verbatim>\<open>model\<close> field, or the default id.\<close>

abbreviation requestedModelId_of :: "OpenAIChatRequest \<Rightarrow> string" where
  "requestedModelId_of b \<equiv>
     (case requested_model b of None \<Rightarrow> DEFAULT_MODEL_ID | Some m \<Rightarrow> m)"

text \<open>
  The streaming path trims a line before it looks for \<^verbatim>\<open>data:\<close> and skips the payload
  \<^verbatim>\<open>[DONE]\<close>.  A successfully parsed event of a raw line of the stream:
\<close>

definition stream_event_of_line :: "json_parse \<Rightarrow> string \<Rightarrow> RaycastSSEData option" where
  "stream_event_of_line parse l =
     (let line = trim l in
      if startsWith line ''data:'' \<and> trim (drop 5 line) \<noteq> ''[DONE]'' then
        (case parse (trim (drop 5 line)) of JsonValue d \<Rightarrow> Some d | _ \<Rightarrow> None)
      else None)"

text \<open>The parsed events of a text, from its newline-terminated lines, in order.\<close>

definition stream_events :: "json_parse \<Rightarrow> string \<Rightarrow> RaycastSSEData list" where
  "stream_events parse s = List.map_filter (stream_event_of_line parse) (lines_of s)"

text \<open>The finish reason of an event, \<open>None\<close> when it is absent or \<^verbatim>\<open>null\<close>.\<close>

definition reason_or_null :: "RaycastSSEData \<Rightarrow> string option" where
  "reason_or_null d = (case sse_finish_reason d of Reason r \<Rightarrow> Some r | _ \<Rightarrow> None)"

text \<open>A raw line whose event bears a finish reason.\<close>

definition finishing_line :: "json_parse \<Rightarrow> string \<Rightarrow> bool" where
  "finishing_line parse l =
     (case stream_event_of_line parse l of
        None \<Rightarrow> False
      | Some d \<Rightarrow> reason_or_null d \<noteq> None)"

section \<open>The loops, line by line\<close>

text \<open>The chunk objects among what was written.\<close>

fun chunks_of :: "sse_out list \<Rightarrow> chunk list" where
  "chunks_of [] = []"
| "chunks_of (Data c # xs) = c # chunks_of xs"
| "chunks_of (DONE # xs) = chunks_of xs"

text \<open>The inner loop's work on a list of raw lines.\<close>

definition run :: "json_parse \<Rightarrow> runtime \<Rightarrow> string \<Rightarrow> stream_state \<Rightarrow> string list \<Rightarrow> stream_state" where
  "run parse rt m st ls = foldl (\<lambda>s l. handleLine parse rt m (trim l) s) st ls"

text \<open>
  The lines the two loops get to: those completed by each read in turn, up to and including
  the read that completes a line bearing a finish reason.
\<close>

fun consumed :: "json_parse \<Rightarrow> string \<Rightarrow> string list \<Rightarrow> string list" where
  "consumed parse buf [] = []"
| "consumed parse buf (v # reads) =
     (if list_ex (finishing_line parse) (lines_of (buf @ v)) then lines_of (buf @ v)
      else lines_of (buf @ v) @ consumed parse (rest_of (buf @ v)) reads)"

section \<open>Sample inputs\<close>

text \<open>
  An instance of the runtime for the worked examples.  \<open>sample_JSON_parse\<close> agrees with
  \<^verbatim>\<open>JSON.parse\<close> on the payloads it lists and is only ever applied to those.
\<close>

definition sample_JSON_parse :: json_parse where
  \<open>sample_JSON_parse s =
     (if s = ''{"text":"Hel"}'' then
        JsonValue \<lparr>sse_text = Some ''Hel'', sse_finish_reason = Absent\<rparr>
      else if s = ''{"text":"lo"}'' then
        JsonValue \<lparr>sse_text = Some ''lo'', sse_finish_reason = Absent\<rparr>
      else if s = ''{"text":"x"}'' then
        JsonValue \<lparr>sse_text = Some ''x'', sse_finish_reason = Absent\<rparr>
      else if s = ''{"finish_reason":"stop"}'' then
        JsonValue \<lparr>sse_text = None, sse_finish_reason = Reason ''stop''\<rparr>
      else if s = ''null'' then JsonNull
      else SyntaxError)\<close>

definition sample_runtime :: runtime where
  "sample_runtime =
     \<lparr>uuidv4 = (\<lambda>n. ''uuid-'' @ numberToString n),
      Date_now = (\<lambda>n. 1700000000000 + 250 * n)\<rparr>"

definition line_Hel :: string where
  \<open>line_Hel = ''data: {"text":"Hel"}'' @ [newline]\<close>

definition line_lo :: string where
  \<open>line_lo = ''data: {"text":"lo"}'' @ [newline]\<close>

definition line_x :: string where
  \<open>line_x = ''data: {"text":"x"}'' @ [newline]\<close>

definition line_stop :: string where
  \<open>line_stop = ''data: {"finish_reason":"stop"}'' @ [newline]\<close>

text \<open>The second line of Scenario B without its newline.\<close>

definition line_lo_unterminated :: string where
  \<open>line_lo_unterminated = ''data: {"text":"lo"}''\<close>

text \<open>A model list with the four combinations of the two flags, and a configuration.\<close>

definition sample_models :: "RaycastRawModelData list" where
  "sample_models =
     [\<lparr>raw_id = ''openai-gpt-4o-mini'', raw_model = ''gpt-4o-mini'', raw_name = ''GPT-4o mini'',
       raw_provider = ''openai'', requires_better_ai = False, availability = ''public''\<rparr>,
      \<lparr>raw_id = ''openai-gpt-4'', raw_model = ''gpt-4'', raw_name = ''GPT-4'',
       raw_provider = ''openai'', requires_better_ai = True, availability = ''deprecated''\<rparr>,
      \<lparr>raw_id = ''anthropic-claude-opus'', raw_model = ''claude-3-opus'', raw_name = ''Claude 3 Opus'',
       raw_provider = ''anthropic'', requires_better_ai = True, availability = ''public''\<rparr>,
      \<lparr>raw_id = ''openai-gpt-3.5'', raw_model = ''gpt-3.5-turbo'', raw_name = ''GPT-3.5'',
       raw_provider = ''openai'', requires_better_ai = False, availability = ''deprecated''\<rparr>]"

definition sample_env :: Env where
  "sample_env = \<lparr>RAYCAST_BEARER_TOKEN = ''token'', API_KEY = None,
                  ADVANCED = Some ''False'', INCLUDE_DEPRECATED = None\<rparr>"

text \<open>A streaming request for a model that \<open>sample_env\<close> filters out.\<close>

definition sample_request :: OpenAIChatRequest where
  "sample_request =
     \<lparr>messages = Some [\<lparr>role = ''user'', content = ''hi''\<rparr>],
      requested_model = Some ''openai-gpt-4'', temperature = None, stream = Some True\<rparr>"

text \<open>
  Two fetched models with one id, and a configuration that disables both flags.
\<close>

definition same_id_models :: "RaycastRawModelData list" where
  "same_id_models =
     [\<lparr>raw_id = ''openai-gpt-4o'', raw_model = ''gpt-4o'', raw_name = ''GPT-4o'',
       raw_provider = ''openai'', requires_better_ai = False, availability = ''public''\<rparr>,
      \<lparr>raw_id = ''openai-gpt-4o'', raw_model = ''gpt-4o-2024-08-06'', raw_name = ''GPT-4o (pro)'',
       raw_provider = ''openai'', requires_better_ai = True, availability = ''public''\<rparr>]"

definition strict_env :: Env where
  "strict_env = \<lparr>RAYCAST_BEARER_TOKEN = ''token'', API_KEY = None,
                 ADVANCED = Some ''false'', INCLUDE_DEPRECATED = Some ''FALSE''\<rparr>"

text \<open>The empty line that ends an event in server-sent-event framing.\<close>

definition blank_line :: string where
  "blank_line = [newline]"

lemmas sample_defs =
  sample_JSON_parse_def sample_runtime_def line_Hel_def line_lo_def line_x_def line_stop_def
  newline_def startsWith_def trim_def isWhiteSpace_def numberToString.simps

declare drain.simps [simp del]

declare numberToString.simps [simp del]

section \<open>Facts about lines\<close>

lemma split_not_Nil: "split s c \<noteq> []"
  by (induction s) (auto split: list.splits)

lemma indexOf_None_iff: "indexOf s c = None \<longleftrightarrow> c \<notin> set s"
  by (induction s) auto

lemma split_no_sep: "c \<notin> set s \<Longrightarrow> split s c = [s]"
  by (induction s) auto

lemma split_at_index:
  "indexOf s c = Some i \<Longrightarrow> split s c = take i s # split (drop (Suc i) s) c"
proof (induction s arbitrary: i)
  case Nil
  then show ?case by simp
next
  case (Cons x xs)
  show ?case
  proof (cases "x = c")
    case True
    with Cons.prems show ?thesis by simp
  next
    case False
    with Cons.prems obtain j where j: "indexOf xs c = Some j" "i = Suc j"
      by auto
    from Cons.IH [OF j(1)] False j(2) show ?thesis by simp
  qed
qed

lemma split_append:
  "split (a @ b) c = butlast (split a c) @ split (last (split a c) @ b) c"
proof (induction a)
  case Nil
  show ?case by simp
next
  case (Cons x xs)
  show ?case
  proof (cases "x = c")
    case True
    with Cons.IH show ?thesis by (simp add: split_not_Nil)
  next
    case False
    obtain l ls where sp: "split xs c = l # ls"
      using split_not_Nil [of xs c] by (cases "split xs c") auto
    show ?thesis
    proof (cases ls)
      case Nil
      with sp Cons.IH False show ?thesis by simp
    next
      case (Cons l' ls')
      with sp Cons.IH False show ?thesis by simp
    qed
  qed
qed

lemma lines_of_append: "lines_of (a @ b) = lines_of a @ lines_of (rest_of a @ b)"
  unfolding lines_of_def rest_of_def
  by (subst split_append) (simp add: butlast_append split_not_Nil)

lemma rest_of_append: "rest_of (a @ b) = rest_of (rest_of a @ b)"
  unfolding rest_of_def
  by (subst split_append) (simp add: split_not_Nil)

lemma lines_of_no_newline: "newline \<notin> set s \<Longrightarrow> lines_of s = []"
  by (simp add: lines_of_def split_no_sep)

lemma rest_of_no_newline: "newline \<notin> set s \<Longrightarrow> rest_of s = s"
  by (simp add: rest_of_def split_no_sep)

lemma newline_notin_last_split: "c \<notin> set (last (split s c))"
  by (induction s) (auto simp: split_not_Nil split: list.splits)

lemma newline_notin_rest_of: "newline \<notin> set (rest_of s)"
  by (simp add: rest_of_def newline_notin_last_split)

lemma drain_eq:
  "drain parse rt m buf st =
     (rest_of buf, foldl (\<lambda>s l. handleLine parse rt m (trim l) s) st (lines_of buf))"
proof (induction parse rt m buf st rule: drain.induct)
  case (1 parse rt m buffer st)
  show ?case
  proof (cases "indexOf buffer newline")
    case None
    then have "newline \<notin> set buffer" by (simp add: indexOf_None_iff)
    with None show ?thesis
      by (subst drain.simps) (simp add: lines_of_no_newline rest_of_no_newline)
  next
    case (Some i)
    have sp: "split buffer newline = take i buffer # split (drop (Suc i) buffer) newline"
      by (rule split_at_index [OF Some])
    from "1.IH" [OF Some] Some sp show ?thesis
      by (subst drain.simps) (simp add: lines_of_def rest_of_def split_not_Nil)
  qed
qed

section \<open>The non-streaming aggregate\<close>

lemma addLine_event:
  "addLine parse fullText line =
     fullText @ (case spec_event_of_line parse line of None \<Rightarrow> [] | Some d \<Rightarrow> text_or_empty d)"
  by (simp add: addLine_def spec_event_of_line_def text_or_empty_def
           split: parsed.splits option.splits)

lemma foldl_addLine:
  "foldl (addLine parse) acc ls =
     acc @ concat (map text_or_empty (List.map_filter (spec_event_of_line parse) ls))"
proof (induction ls arbitrary: acc)
  case Nil
  show ?case by (simp add: List.map_filter_simps)
next
  case (Cons l ls)
  have "foldl (addLine parse) acc (l # ls) = foldl (addLine parse) (addLine parse acc l) ls"
    by simp
  also have "\<dots> = addLine parse acc l
      @ concat (map text_or_empty (List.map_filter (spec_event_of_line parse) ls))"
    by (rule Cons.IH)
  also have "\<dots> = acc
      @ concat (map text_or_empty (List.map_filter (spec_event_of_line parse) (l # ls)))"
    by (cases "spec_event_of_line parse l") (simp_all add: addLine_event List.map_filter_simps)
  finally show ?case .
qed

lemma parseSSEResponse_concat:
  "parseSSEResponse parse responseText =
     concat (map text_or_empty (spec_parsed_events parse responseText))"
  by (simp add: parseSSEResponse_def spec_parsed_events_def foldl_addLine)

text \<open>
  C5.  The content of the non-streaming completion is the concatenation, in order, of the
  \<^verbatim>\<open>text\<close> of every successfully parsed \<^verbatim>\<open>data:\<close> event of the body, an event without
  \<^verbatim>\<open>text\<close> contributing nothing; for the three events of Scenario B it is \<^verbatim>\<open>Hello\<close>.
\<close>

theorem nonstreaming_content_is_concatenation:
  "message_content (handleNonStreamingResponse parse rt u t body requestedModelId) =
     concat (map text_or_empty
       (spec_parsed_events parse (case body of None \<Rightarrow> [] | Some reads \<Rightarrow> concat reads)))
   \<and> message_content
       (handleNonStreamingResponse sample_JSON_parse sample_runtime 1 0
          (Some [line_Hel, line_lo, line_stop]) ''gpt-4o'') = ''Hello''"
proof
  show "message_content (handleNonStreamingResponse parse rt u t body requestedModelId) =
     concat (map text_or_empty
       (spec_parsed_events parse (case body of None \<Rightarrow> [] | Some reads \<Rightarrow> concat reads)))"
    by (simp add: handleNonStreamingResponse_def parseSSEResponse_concat)
  show "message_content
       (handleNonStreamingResponse sample_JSON_parse sample_runtime 1 0
          (Some [line_Hel, line_lo, line_stop]) ''gpt-4o'') = ''Hello''"
    by (simp add: handleNonStreamingResponse_def parseSSEResponse_def addLine_def sample_defs)
qed


section \<open>Request translation\<close>

lemma convertLoop_later:
  "convertLoop msgs (Suc n) (acc, si) = (acc @ map toRaycast (filter userOrAssistant msgs), si)"
proof (induction msgs arbitrary: n acc)
  case Nil
  show ?case by simp
next
  case (Cons m ms)
  show ?case by (simp add: Cons.IH toRaycast_def userOrAssistant_def)
qed

text \<open>
  C6.  \<^verbatim>\<open>convertMessages\<close>: a leading \<^verbatim>\<open>system\<close> message gives the system instruction and
  is left out, otherwise the instruction is \<^verbatim>\<open>markdown\<close>; the vendor messages are the
  remaining messages of role \<^verbatim>\<open>user\<close> or \<^verbatim>\<open>assistant\<close>, in order, one for one, every
  other message being dropped.  Scenario A is the second conjunct.
\<close>

theorem convertMessages_translation:
  "convertMessages msgs =
     (case msgs of
        [] \<Rightarrow> ([], ''markdown'')
      | m # rest \<Rightarrow>
          if role m = ''system'' then
            (map (\<lambda>x. \<lparr>author = role x, content_text = content x\<rparr>)
               (filter (\<lambda>x. role x = ''user'' \<or> role x = ''assistant'') rest), content m)
          else
            (map (\<lambda>x. \<lparr>author = role x, content_text = content x\<rparr>)
               (filter (\<lambda>x. role x = ''user'' \<or> role x = ''assistant'') msgs), ''markdown''))
   \<and> convertMessages
       [\<lparr>role = ''system'', content = ''Be terse''\<rparr>, \<lparr>role = ''user'', content = ''hi''\<rparr>] =
       ([\<lparr>author = ''user'', content_text = ''hi''\<rparr>], ''Be terse'')"
proof
  have eqs: "toRaycast = (\<lambda>x. \<lparr>author = role x, content_text = content x\<rparr>)"
    "userOrAssistant = (\<lambda>x. role x = ''user'' \<or> role x = ''assistant'')"
    by (auto simp: toRaycast_def userOrAssistant_def fun_eq_iff)
  show "convertMessages msgs =
     (case msgs of
        [] \<Rightarrow> ([], ''markdown'')
      | m # rest \<Rightarrow>
          if role m = ''system'' then
            (map (\<lambda>x. \<lparr>author = role x, content_text = content x\<rparr>)
               (filter (\<lambda>x. role x = ''user'' \<or> role x = ''assistant'') rest), content m)
          else
            (map (\<lambda>x. \<lparr>author = role x, content_text = content x\<rparr>)
               (filter (\<lambda>x. role x = ''user'' \<or> role x = ''assistant'') msgs), ''markdown''))"
  proof (cases msgs)
    case Nil
    then show ?thesis by (simp add: convertMessages_def)
  next
    case (Cons m rest)
    then show ?thesis
      using convertLoop_later [of rest 0]
      by (simp add: convertMessages_def eqs)
  qed
  show "convertMessages
       [\<lparr>role = ''system'', content = ''Be terse''\<rparr>, \<lparr>role = ''user'', content = ''hi''\<rparr>] =
       ([\<lparr>author = ''user'', content_text = ''hi''\<rparr>], ''Be terse'')"
    by (simp add: convertMessages_def)
qed

section \<open>The model catalog\<close>

lemma filterModels_Cons:
  "filterModels sa inc (x # xs) acc =
     filterModels sa inc xs
       (if spec_retained sa inc x
        then AList.update (raw_id x) \<lparr>provider = raw_provider x, model = raw_model x\<rparr> acc
        else acc)"
  by (simp add: spec_retained_def Let_def)

lemma filterModels_keys:
  "fst ` set (filterModels sa inc ms acc) =
     fst ` set acc \<union> raw_id ` {m \<in> set ms. spec_retained sa inc m}"
proof (induction ms arbitrary: acc)
  case Nil
  show ?case by simp
next
  case (Cons x xs)
  show ?case
    unfolding filterModels_Cons Cons.IH
    by (auto simp: AList.dom_update)
qed

lemma find_snoc:
  "find P (xs @ [x]) = (case find P xs of None \<Rightarrow> (if P x then Some x else None) | Some y \<Rightarrow> Some y)"
  by (induction xs) simp_all

lemma find_Some_mem: "find P xs = Some m \<Longrightarrow> m \<in> set xs \<and> P m"
  by (induction xs) (auto split: if_splits)

lemma filterModels_find:
  "map_of (filterModels sa inc ms acc) k =
     (case find (\<lambda>m. raw_id m = k \<and> spec_retained sa inc m) (rev ms) of
        None \<Rightarrow> map_of acc k
      | Some m \<Rightarrow> Some (toInfo m))"
proof (induction ms arbitrary: acc)
  case Nil
  show ?case by simp
next
  case (Cons x xs)
  show ?case
    unfolding filterModels_Cons Cons.IH
    by (simp add: find_snoc AList.update_conv' toInfo_def split: option.splits)
qed

lemma gates:
  "showAdvanced env \<longleftrightarrow> map_option toLowerCase (ADVANCED env) \<noteq> Some ''false''"
  "includeDeprecated env \<longleftrightarrow> map_option toLowerCase (INCLUDE_DEPRECATED env) \<noteq> Some ''false''"
  by (simp_all add: showAdvanced_def includeDeprecated_def split: option.splits)

text \<open>
  C7, as the specification has it: a fetched model is in the catalog exactly when it passes
  the two flags.  The catalog is a map from ids: of two fetched models with one id, the one
  that the flags turn away is still found in the catalog, under the id the other one put
  there.
\<close>

theorem filtered_model_with_shared_id:
  "same_id_models ! 1 \<in> set same_id_models
   \<and> \<not> ((showAdvanced sample_env \<or> \<not> requires_better_ai (same_id_models ! 1)) \<and>
        (includeDeprecated sample_env \<or> \<not> availability (same_id_models ! 1) = ''deprecated''))
   \<and> raw_id (same_id_models ! 1) \<in>
       fst ` set (fetchModels sample_env (Response 200 (ModelList same_id_models)))"
  by (simp add: same_id_models_def fetchModels_def ok_def sample_env_def showAdvanced_def
        includeDeprecated_def toLowerCase_def lowerChar_def)

text \<open>
  C7, amended.  \<open>showAdvanced\<close> is false exactly when \<^verbatim>\<open>ADVANCED\<close> is set to a value that
  lower-cases to \<^verbatim>\<open>false\<close>, and \<open>includeDeprecated\<close> likewise for
  \<^verbatim>\<open>INCLUDE_DEPRECATED\<close>; both are true when the variable is unset.  An id is a key of the
  catalog exactly when some fetched model with that id satisfies
  \<open>(showAdvanced \<or> \<not> requires_better_ai) \<and> (includeDeprecated \<or> \<not> deprecated)\<close>, and it is
  mapped to the provider and internal name of the last such model.  So a fetched model
  whose id no other fetched model has is in the catalog exactly when it satisfies the
  predicate, and then with its own provider and internal name.
\<close>

theorem catalog_membership:
  assumes "ok status"
  shows "(showAdvanced env \<longleftrightarrow> map_option toLowerCase (ADVANCED env) \<noteq> Some ''false'')
     \<and> (includeDeprecated env \<longleftrightarrow>
          map_option toLowerCase (INCLUDE_DEPRECATED env) \<noteq> Some ''false'')
     \<and> (k \<in> fst ` set (fetchModels env (Response status (ModelList ms))) \<longleftrightarrow>
          (\<exists>m \<in> set ms. raw_id m = k \<and>
             (showAdvanced env \<or> \<not> requires_better_ai m) \<and>
             (includeDeprecated env \<or> \<not> availability m = ''deprecated'')))
     \<and> map_of (fetchModels env (Response status (ModelList ms))) k =
          map_option (\<lambda>m. \<lparr>provider = raw_provider m, model = raw_model m\<rparr>)
            (find (\<lambda>m. raw_id m = k \<and>
                     (showAdvanced env \<or> \<not> requires_better_ai m) \<and>
                     (includeDeprecated env \<or> \<not> availability m = ''deprecated''))
               (rev ms))
     \<and> (x \<in> set ms \<and> (\<forall>y \<in> set ms. raw_id y = raw_id x \<longrightarrow> y = x) \<longrightarrow>
          (raw_id x \<in> fst ` set (fetchModels env (Response status (ModelList ms))) \<longleftrightarrow>
             (showAdvanced env \<or> \<not> requires_better_ai x) \<and>
             (includeDeprecated env \<or> \<not> availability x = ''deprecated''))
          \<and> ((showAdvanced env \<or> \<not> requires_better_ai x) \<and>
              (includeDeprecated env \<or> \<not> availability x = ''deprecated'') \<longrightarrow>
              map_of (fetchModels env (Response status (ModelList ms))) (raw_id x) =
                Some \<lparr>provider = raw_provider x, model = raw_model x\<rparr>))"
proof -
  let ?cat = "fetchModels env (Response status (ModelList ms))"
  let ?P = "\<lambda>m. (showAdvanced env \<or> \<not> requires_better_ai m) \<and>
                (includeDeprecated env \<or> \<not> availability m = ''deprecated'')"
  have P: "spec_retained (showAdvanced env) (includeDeprecated env) = ?P"
    by (simp add: spec_retained_def fun_eq_iff)
  have cat: "?cat = filterModels (showAdvanced env) (includeDeprecated env) ms []"
    using assms by (simp add: fetchModels_def)
  have keys: "\<And>k. k \<in> fst ` set ?cat \<longleftrightarrow> (\<exists>m \<in> set ms. raw_id m = k \<and> ?P m)"
    unfolding cat filterModels_keys P by auto
  have look: "\<And>k. map_of ?cat k =
      map_option (\<lambda>m. \<lparr>provider = raw_provider m, model = raw_model m\<rparr>)
        (find (\<lambda>m. raw_id m = k \<and> ?P m) (rev ms))"
    unfolding cat filterModels_find P
    by (simp add: toInfo_def split: option.splits)
  have single: "x \<in> set ms \<and> (\<forall>y \<in> set ms. raw_id y = raw_id x \<longrightarrow> y = x) \<longrightarrow>
          (raw_id x \<in> fst ` set ?cat \<longleftrightarrow> ?P x)
          \<and> (?P x \<longrightarrow> map_of ?cat (raw_id x) =
                Some \<lparr>provider = raw_provider x, model = raw_model x\<rparr>)"
  proof (intro impI, elim conjE)
    assume mem: "x \<in> set ms" and uniq: "\<forall>y \<in> set ms. raw_id y = raw_id x \<longrightarrow> y = x"
    have iff: "raw_id x \<in> fst ` set ?cat \<longleftrightarrow> ?P x"
      unfolding keys using mem uniq by blast
    have entry: "?P x \<longrightarrow> map_of ?cat (raw_id x) =
        Some \<lparr>provider = raw_provider x, model = raw_model x\<rparr>"
    proof
      assume px: "?P x"
      with mem have "\<exists>m \<in> set (rev ms). raw_id m = raw_id x \<and> ?P m" by auto
      then obtain m where f: "find (\<lambda>m. raw_id m = raw_id x \<and> ?P m) (rev ms) = Some m"
        by (cases "find (\<lambda>m. raw_id m = raw_id x \<and> ?P m) (rev ms)")
           (auto simp: find_None_iff)
      then have "m \<in> set ms" "raw_id m = raw_id x"
        using find_Some_mem [OF f] by auto
      with uniq have "m = x" by blast
      with f show "map_of ?cat (raw_id x) = Some \<lparr>provider = raw_provider x, model = raw_model x\<rparr>"
        unfolding look by simp
    qed
    from iff entry show "(raw_id x \<in> fst ` set ?cat \<longleftrightarrow> ?P x)
          \<and> (?P x \<longrightarrow> map_of ?cat (raw_id x) =
                Some \<lparr>provider = raw_provider x, model = raw_model x\<rparr>)" ..
  qed
  from gates [of env] keys [of k] look [of k] single show ?thesis
    by blast
qed


theorem catalog_membership_witness:
  "ok 200
   \<and> \<not> showAdvanced strict_env \<and> \<not> includeDeprecated strict_env
   \<and> includeDeprecated sample_env
   \<and> ''openai-gpt-3.5'' \<notin> fst ` set (fetchModels strict_env (Response 200 (ModelList sample_models)))
   \<and> ''openai-gpt-3.5'' \<in> fst ` set (fetchModels sample_env (Response 200 (ModelList sample_models)))
   \<and> sample_models ! 0 \<in> set sample_models
   \<and> map_of (fetchModels strict_env (Response 200 (ModelList sample_models)))
        ''openai-gpt-4o-mini'' = Some \<lparr>provider = ''openai'', model = ''gpt-4o-mini''\<rparr>"
proof -
  have h1: "ok 200" by (simp add: ok_def)
  note strict = catalog_membership [OF h1, where env = strict_env and ms = sample_models
      and k = "''openai-gpt-3.5''" and x = "sample_models ! 0"]
  note dflt = catalog_membership [OF h1, where env = sample_env and ms = sample_models
      and k = "''openai-gpt-3.5''" and x = "sample_models ! 0"]
  have lower: "toLowerCase ''false'' = ''false''" "toLowerCase ''FALSE'' = ''false''"
    "toLowerCase ''False'' = ''false''"
    by (simp_all add: toLowerCase_def lowerChar_def)
  have g: "\<not> showAdvanced strict_env" "\<not> includeDeprecated strict_env"
    using strict [THEN conjunct1] strict [THEN conjunct2, THEN conjunct1]
    by (simp_all add: strict_env_def lower)
  have d: "\<not> showAdvanced sample_env" "includeDeprecated sample_env"
    using dflt [THEN conjunct1] dflt [THEN conjunct2, THEN conjunct1]
    by (simp_all add: sample_env_def lower)
  have out: "''openai-gpt-3.5'' \<notin>
      fst ` set (fetchModels strict_env (Response 200 (ModelList sample_models)))"
    unfolding strict [THEN conjunct2, THEN conjunct2, THEN conjunct1]
    using g by (simp add: sample_models_def)
  have inn: "''openai-gpt-3.5'' \<in>
      fst ` set (fetchModels sample_env (Response 200 (ModelList sample_models)))"
    unfolding dflt [THEN conjunct2, THEN conjunct2, THEN conjunct1]
    using d by (simp add: sample_models_def)
  have mem: "sample_models ! 0 \<in> set sample_models"
    by (simp add: sample_models_def)
  have uniq: "\<forall>y \<in> set sample_models. raw_id y = raw_id (sample_models ! 0) \<longrightarrow> y = sample_models ! 0"
    by (simp add: sample_models_def)
  have x0: "\<not> requires_better_ai (sample_models ! 0)"
    "\<not> availability (sample_models ! 0) = ''deprecated''"
    "raw_id (sample_models ! 0) = ''openai-gpt-4o-mini''"
    "raw_provider (sample_models ! 0) = ''openai''"
    "raw_model (sample_models ! 0) = ''gpt-4o-mini''"
    by (simp_all add: sample_models_def)
  note single = strict [THEN conjunct2, THEN conjunct2, THEN conjunct2, THEN conjunct2,
      rule_format, OF conjI, OF mem uniq, THEN conjunct2, rule_format]
  have entry: "map_of (fetchModels strict_env (Response 200 (ModelList sample_models)))
        ''openai-gpt-4o-mini'' = Some \<lparr>provider = ''openai'', model = ''gpt-4o-mini''\<rparr>"
    using single x0 by simp
  from h1 g d(2) out inn mem entry show ?thesis by simp
qed

section \<open>The endpoint's error paths\<close>

text \<open>
  C8.  A request that reaches the catalog (its \<^verbatim>\<open>messages\<close> are a non-empty list) and asks
  for a model id that a non-empty catalog does not hold gets status 400,
  \<^verbatim>\<open>invalid_request_error\<close>, a message naming the default model id, and nothing is posted
  to the vendor; the fallback entry that \<^verbatim>\<open>getProviderInfo\<close> returns goes unused.
\<close>

theorem unavailable_model_is_rejected:
  assumes \<open>messages b = Some msgs\<close> and \<open>msgs \<noteq> []\<close>
    and \<open>fetchModels env modelsReply \<noteq> []\<close>
    and \<open>map_of (fetchModels env modelsReply) (requestedModelId_of b) = None\<close>
  shows \<open>handleChatCompletions parse rt env (Inr b) modelsReply vendorChat =
           (JsonError 400
              (''Model "'' @ requestedModelId_of b
                 @ ''" not available. Using default: openai-gpt-4o-mini'')
              ''invalid_request_error'', [])
         \<and> getProviderInfo (requestedModelId_of b) (fetchModels env modelsReply) =
           \<lparr>provider = ''openai'', model = ''gpt-4o-mini''\<rparr>\<close>
  using assms
  by (simp add: handleChatCompletions_def errorResponse_def DEFAULT_MODEL_ID_def Let_def
        getProviderInfo_def DEFAULT_PROVIDER_def DEFAULT_INTERNAL_MODEL_def)

theorem unavailable_model_is_rejected_witness:
  \<open>messages sample_request = Some [\<lparr>role = ''user'', content = ''hi''\<rparr>]
   \<and> fetchModels sample_env (Response 200 (ModelList sample_models)) \<noteq> []
   \<and> map_of (fetchModels sample_env (Response 200 (ModelList sample_models))) ''openai-gpt-4'' = None
   \<and> handleChatCompletions sample_JSON_parse sample_runtime sample_env (Inr sample_request)
        (Response 200 (ModelList sample_models)) (\<lambda>r. Response 200 (Delivered (Some [line_Hel]))) =
      (JsonError 400 ''Model "openai-gpt-4" not available. Using default: openai-gpt-4o-mini''
         ''invalid_request_error'', [])\<close>
proof -
  have cat: "fetchModels sample_env (Response 200 (ModelList sample_models)) =
      [(''openai-gpt-4o-mini'', \<lparr>provider = ''openai'', model = ''gpt-4o-mini''\<rparr>),
       (''openai-gpt-3.5'', \<lparr>provider = ''openai'', model = ''gpt-3.5-turbo''\<rparr>)]"
    by (simp add: fetchModels_def ok_def sample_models_def sample_env_def showAdvanced_def
          includeDeprecated_def toLowerCase_def lowerChar_def)
  have h1: "messages sample_request = Some [\<lparr>role = ''user'', content = ''hi''\<rparr>]"
    by (simp add: sample_request_def)
  have h2: "[\<lparr>role = ''user'', content = ''hi''\<rparr>] \<noteq> []" by simp
  have h3: "fetchModels sample_env (Response 200 (ModelList sample_models)) \<noteq> []"
    by (simp add: cat)
  have h4: "map_of (fetchModels sample_env (Response 200 (ModelList sample_models)))
      (requestedModelId_of sample_request) = None"
    by (simp add: cat sample_request_def)
  from unavailable_model_is_rejected [OF h1 h2 h3 h4] h1 h3 h4 show ?thesis
    by (simp add: sample_request_def)
qed

text \<open>
  C9, as the specification has it: every vendor response with a status outside 200 to 299
  is answered with 502 \<^verbatim>\<open>bad_gateway\<close>.  The handler first awaits the vendor's error body
  for its log, inside the \<^verbatim>\<open>try\<close>: when that read throws, the \<^verbatim>\<open>catch\<close> answers 500
  \<^verbatim>\<open>relay_error\<close>.
\<close>

theorem unreadable_vendor_error_body:
  "fst (handleChatCompletions sample_JSON_parse sample_runtime sample_env
        (Inr (sample_request\<lparr>requested_model := None\<rparr>))
        (Response 200 (ModelList sample_models))
        (\<lambda>r. Response 500 (ReadFails ''socket hang up''))) =
     JsonError 500 ''Chat completion failed: socket hang up'' ''relay_error''"
  by (simp add: handleChatCompletions_def errorResponse_def Let_def sample_request_def
        DEFAULT_MODEL_ID_def fetchModels_def ok_def sample_models_def sample_env_def
        showAdvanced_def includeDeprecated_def toLowerCase_def lowerChar_def
        getProviderInfo_def convertMessages_def)

text \<open>
  C9, amended.  When the vendor answers the chat request with a status outside 200 to 299
  and its error body can be read (or it has none), the response is status 502,
  \<^verbatim>\<open>bad_gateway\<close>, with a message that holds the vendor's status code only: it is the same
  whatever the vendor's body is, and no event stream or completion is built.  When reading
  the error body throws, the response is status 500, \<^verbatim>\<open>relay_error\<close>, with the message of
  what was thrown.
\<close>

theorem vendor_failure_is_bad_gateway:
  assumes "messages b = Some msgs" and "msgs \<noteq> []"
    and "map_of (fetchModels env modelsReply) (requestedModelId_of b) = Some info"
    and "\<not> ok status"
  shows "fst (handleChatCompletions parse rt env (Inr b) modelsReply
                (\<lambda>r. Response status (Delivered errorBody))) =
           JsonError 502 (''Raycast API error ('' @ numberToString status @ '')'') ''bad_gateway''
         \<and> handleChatCompletions parse rt env (Inr b) modelsReply
              (\<lambda>r. Response status (Delivered errorBody)) =
           handleChatCompletions parse rt env (Inr b) modelsReply
              (\<lambda>r. Response status (Delivered otherBody))
         \<and> fst (handleChatCompletions parse rt env (Inr b) modelsReply
                (\<lambda>r. Response status (ReadFails e))) =
           JsonError 500 (''Chat completion failed: '' @ e) ''relay_error''"
proof -
  from assms(3) have "fetchModels env modelsReply \<noteq> []" by auto
  with assms show ?thesis
    by (simp add: handleChatCompletions_def errorResponse_def Let_def split: prod.splits)
qed

theorem vendor_failure_is_bad_gateway_witness:
  "messages (sample_request\<lparr>requested_model := None\<rparr>) =
     Some [\<lparr>role = ''user'', content = ''hi''\<rparr>]
   \<and> map_of (fetchModels sample_env (Response 200 (ModelList sample_models)))
        ''openai-gpt-4o-mini'' = Some \<lparr>provider = ''openai'', model = ''gpt-4o-mini''\<rparr>
   \<and> \<not> ok 500
   \<and> fst (handleChatCompletions sample_JSON_parse sample_runtime sample_env
        (Inr (sample_request\<lparr>requested_model := None\<rparr>))
        (Response 200 (ModelList sample_models))
        (\<lambda>r. Response 500 (Delivered (Some [''upstream stack trace''])))) =
      JsonError 502 ''Raycast API error (500)'' ''bad_gateway''
   \<and> fst (handleChatCompletions sample_JSON_parse sample_runtime sample_env
        (Inr (sample_request\<lparr>requested_model := None\<rparr>))
        (Response 200 (ModelList sample_models))
        (\<lambda>r. Response 503 (ReadFails ''connection reset''))) =
      JsonError 500 ''Chat completion failed: connection reset'' ''relay_error''"
proof -
  let ?b = "sample_request\<lparr>requested_model := None\<rparr>"
  have cat: "fetchModels sample_env (Response 200 (ModelList sample_models)) =
      [(''openai-gpt-4o-mini'', \<lparr>provider = ''openai'', model = ''gpt-4o-mini''\<rparr>),
       (''openai-gpt-3.5'', \<lparr>provider = ''openai'', model = ''gpt-3.5-turbo''\<rparr>)]"
    by (simp add: fetchModels_def ok_def sample_models_def sample_env_def showAdvanced_def
          includeDeprecated_def toLowerCase_def lowerChar_def)
  have h1: "messages ?b = Some [\<lparr>role = ''user'', content = ''hi''\<rparr>]"
    by (simp add: sample_request_def)
  have h2: "[\<lparr>role = ''user'', content = ''hi''\<rparr>] \<noteq> []" by simp
  have h3: "map_of (fetchModels sample_env (Response 200 (ModelList sample_models)))
      (requestedModelId_of ?b) = Some \<lparr>provider = ''openai'', model = ''gpt-4o-mini''\<rparr>"
    by (simp add: cat sample_request_def DEFAULT_MODEL_ID_def)
  have h4: "\<not> ok 500" "\<not> ok 503" by (simp_all add: ok_def)
  from vendor_failure_is_bad_gateway [OF h1 h2 h3 h4(1),
      where errorBody = "Some [''upstream stack trace'']"]
    vendor_failure_is_bad_gateway [OF h1 h2 h3 h4(2), where e = "''connection reset''"]
    h1 h3 h4
  show ?thesis
    by (simp add: sample_request_def DEFAULT_MODEL_ID_def numberToString.simps)
qed

section \<open>Streaming: the loops in terms of lines\<close>

lemma run_Nil [simp]: "run parse rt m st [] = st"
  by (simp add: run_def)

lemma run_Cons [simp]:
  "run parse rt m st (l # ls) = run parse rt m (handleLine parse rt m (trim l) st) ls"
  by (simp add: run_def)

lemma run_append: "run parse rt m st (xs @ ys) = run parse rt m (run parse rt m st xs) ys"
  by (simp add: run_def)

lemma drain_run: "drain parse rt m buf st = (rest_of buf, run parse rt m st (lines_of buf))"
  by (simp add: drain_eq run_def)

lemma handleLine_finished:
  "streamFinished (handleLine parse rt m (trim l) st) \<longleftrightarrow>
     streamFinished st \<or> finishing_line parse l"
  by (auto simp: handleLine_def finishing_line_def stream_event_of_line_def reason_or_null_def
        Let_def split: parsed.splits finish_reason.splits)

lemma run_finished:
  "streamFinished (run parse rt m st ls) \<longleftrightarrow>
     streamFinished st \<or> list_ex (finishing_line parse) ls"
  by (induction ls arbitrary: st) (auto simp: handleLine_finished)

lemma pump_finished: "streamFinished st \<Longrightarrow> pump parse rt m reads buf st = st"
  by (cases reads) simp_all

lemma finished_update: "streamFinished st \<Longrightarrow> st\<lparr>streamFinished := True\<rparr> = st"
  by (cases st) simp

lemma pump_run:
  "\<not> streamFinished st \<Longrightarrow>
     pump parse rt m reads buf st =
       (run parse rt m st (consumed parse buf reads))\<lparr>streamFinished := True\<rparr>"
proof (induction reads arbitrary: buf st)
  case Nil
  then show ?case by simp
next
  case (Cons v reads)
  let ?ls = "lines_of (buf @ v)"
  let ?st' = "run parse rt m st ?ls"
  have step: "pump parse rt m (v # reads) buf st = pump parse rt m reads (rest_of (buf @ v)) ?st'"
    using Cons.prems by (simp add: drain_run)
  show ?case
  proof (cases "list_ex (finishing_line parse) ?ls")
    case True
    then have fin: "streamFinished ?st'" by (simp add: run_finished)
    from True fin show ?thesis
      unfolding step by (simp add: pump_finished finished_update)
  next
    case False
    with Cons.prems have "\<not> streamFinished ?st'" by (simp add: run_finished)
    from Cons.IH [OF this] False show ?thesis
      unfolding step by (simp add: run_append)
  qed
qed

lemma consumed_all:
  assumes "newline \<notin> set buf"
    and "\<forall>l \<in> set (butlast (lines_of (buf @ concat reads))). \<not> finishing_line parse l"
  shows "consumed parse buf reads = lines_of (buf @ concat reads)"
  using assms
proof (induction reads arbitrary: buf)
  case Nil
  then show ?case by (simp add: lines_of_no_newline)
next
  case (Cons v reads)
  let ?ls = "lines_of (buf @ v)"
  let ?later = "lines_of (rest_of (buf @ v) @ concat reads)"
  have all: "lines_of (buf @ v @ concat reads) = ?ls @ ?later"
    using lines_of_append [of "buf @ v" "concat reads"] by simp
  show ?case
  proof (cases "list_ex (finishing_line parse) ?ls")
    case True
    then obtain l where l: "l \<in> set ?ls" "finishing_line parse l"
      by (auto simp: list_ex_iff)
    have "?later = []"
    proof (rule ccontr)
      assume "?later \<noteq> []"
      then have "butlast (?ls @ ?later) = ?ls @ butlast ?later"
        by (simp add: butlast_append)
      with l(1) have "l \<in> set (butlast (lines_of (buf @ concat (v # reads))))"
        by (simp add: all)
      with Cons.prems(2) l(2) show False by blast
    qed
    with True show ?thesis by (simp add: all)
  next
    case False
    have "set (butlast ?later) \<subseteq> set (butlast (?ls @ ?later))"
      by (cases "?later = []") (auto simp: butlast_append)
    with Cons.prems(2) have "\<forall>l \<in> set (butlast ?later). \<not> finishing_line parse l"
      by (auto simp: all)
    from Cons.IH [OF newline_notin_rest_of this] False show ?thesis
      by (simp add: all)
  qed
qed

lemma consumed_tail_no_newline:
  "newline \<notin> set t \<Longrightarrow> consumed parse buf (reads @ [c @ t]) = consumed parse buf (reads @ [c])"
proof (induction reads arbitrary: buf)
  case Nil
  have "lines_of (buf @ c @ t) = lines_of (buf @ c)"
    using Nil lines_of_append [of "buf @ c" t]
    by (simp add: lines_of_no_newline newline_notin_rest_of)
  then show ?case by simp
next
  case (Cons v reads)
  then show ?case by simp
qed

lemma chunks_of_append: "chunks_of (xs @ ys) = chunks_of xs @ chunks_of ys"
  by (induction xs rule: chunks_of.induct) simp_all

lemma map_Data_chunks_of: "DONE \<notin> set xs \<Longrightarrow> map Data (chunks_of xs) = xs"
  by (induction xs rule: chunks_of.induct) simp_all

text \<open>What one line adds to the output, and what it does to the two counters.\<close>

lemma handleLine_written:
  "written (handleLine parse rt m (trim l) st) =
     written st @
     (case stream_event_of_line parse l of
        None \<Rightarrow> []
      | Some d \<Rightarrow>
          [Data \<lparr>chunk_id = ''chatcmpl-'' @ uuidv4 rt (uuid_calls st),
                 chunk_object = ''chat.completion.chunk'',
                 chunk_created = Date_now rt (clock_reads st) div 1000,
                 chunk_model = m, choice_index = 0,
                 delta_content = text_or_empty d,
                 choice_finish_reason = reason_or_null d\<rparr>])"
  by (auto simp: handleLine_def stream_event_of_line_def text_or_empty_def reason_or_null_def
        Let_def split: parsed.splits finish_reason.splits option.splits)

lemma handleLine_counters:
  "uuid_calls st \<le> uuid_calls (handleLine parse rt m (trim l) st)"
  "clock_reads st \<le> clock_reads (handleLine parse rt m (trim l) st)"
  "stream_event_of_line parse l \<noteq> None \<Longrightarrow>
     uuid_calls (handleLine parse rt m (trim l) st) = Suc (uuid_calls st)"
  "stream_event_of_line parse l \<noteq> None \<Longrightarrow>
     clock_reads (handleLine parse rt m (trim l) st) = Suc (clock_reads st)"
  by (auto simp: handleLine_def stream_event_of_line_def Let_def
        split: parsed.splits finish_reason.splits if_splits)

lemma run_no_DONE:
  "DONE \<notin> set (written st) \<Longrightarrow> DONE \<notin> set (written (run parse rt m st ls))"
  by (induction ls arbitrary: st) (auto simp: handleLine_written split: option.splits)

lemma run_contents:
  "map delta_content (chunks_of (written (run parse rt m st ls))) =
     map delta_content (chunks_of (written st))
     @ map text_or_empty (List.map_filter (stream_event_of_line parse) ls)"
proof (induction ls arbitrary: st)
  case Nil
  show ?case by (simp add: List.map_filter_simps)
next
  case (Cons l ls)
  show ?case
    by (cases "stream_event_of_line parse l")
       (simp_all add: Cons.IH handleLine_written chunks_of_append List.map_filter_simps)
qed

lemma run_reasons:
  "map choice_finish_reason (chunks_of (written (run parse rt m st ls))) =
     map choice_finish_reason (chunks_of (written st))
     @ map reason_or_null (List.map_filter (stream_event_of_line parse) ls)"
proof (induction ls arbitrary: st)
  case Nil
  show ?case by (simp add: List.map_filter_simps)
next
  case (Cons l ls)
  show ?case
    by (cases "stream_event_of_line parse l")
       (simp_all add: Cons.IH handleLine_written chunks_of_append List.map_filter_simps)
qed

text \<open>The whole response in terms of the lines it gets to.\<close>

lemma handleStreamingResponse_run:
  "handleStreamingResponse parse rt u t (Some reads) m =
     written (run parse rt m
                \<lparr>written = [], streamFinished = False, uuid_calls = u, clock_reads = t\<rparr>
                (consumed parse [] reads))
     @ [DONE]"
  by (simp add: handleStreamingResponse_def pump_run)

lemma handleStreamingResponse_all_lines:
  assumes "\<forall>l \<in> set (butlast (lines_of (concat reads))). \<not> finishing_line parse l"
  shows "handleStreamingResponse parse rt u t (Some reads) m =
     written (run parse rt m
                \<lparr>written = [], streamFinished = False, uuid_calls = u, clock_reads = t\<rparr>
                (lines_of (concat reads)))
     @ [DONE]"
  using consumed_all [of "[]" reads parse] assms
  by (simp add: handleStreamingResponse_run)

lemma streaming_split_invariant:
  assumes "concat reads1 = concat reads2"
    and "\<forall>l \<in> set (butlast (lines_of (concat reads1))). \<not> finishing_line parse l"
  shows "handleStreamingResponse parse rt u t (Some reads1) m =
         handleStreamingResponse parse rt u t (Some reads2) m"
  using assms by (simp add: handleStreamingResponse_all_lines)

lemmas stream_eval =
  handleStreamingResponse_def handleLine_def drain.simps sample_defs

section \<open>Streaming: what is emitted\<close>

text \<open>
  C3, as the specification has it: the chunks before the sentinel are one per parsed event that has a
  \<^verbatim>\<open>text\<close> field, each with a null finish reason, and Scenario B streams two deltas and
  the sentinel.  The code writes a chunk for every parsed event, whether it has a text or
  not, and copies the event's finish reason into the chunk: the three reads of Scenario B
  give three chunks, the third with empty content and the finish reason \<^verbatim>\<open>stop\<close>.
\<close>

theorem scenario_B_streams_three_chunks:
  "handleStreamingResponse sample_JSON_parse sample_runtime 1 0
     (Some [line_Hel, line_lo, line_stop]) ''gpt-4o'' =
   [Data \<lparr>chunk_id = ''chatcmpl-uuid-1'', chunk_object = ''chat.completion.chunk'',
           chunk_created = 1700000000, chunk_model = ''gpt-4o'', choice_index = 0,
           delta_content = ''Hel'', choice_finish_reason = None\<rparr>,
    Data \<lparr>chunk_id = ''chatcmpl-uuid-2'', chunk_object = ''chat.completion.chunk'',
           chunk_created = 1700000000, chunk_model = ''gpt-4o'', choice_index = 0,
           delta_content = ''lo'', choice_finish_reason = None\<rparr>,
    Data \<lparr>chunk_id = ''chatcmpl-uuid-3'', chunk_object = ''chat.completion.chunk'',
           chunk_created = 1700000000, chunk_model = ''gpt-4o'', choice_index = 0,
           delta_content = [], choice_finish_reason = Some ''stop''\<rparr>,
    DONE]"
  by (simp add: stream_eval)

lemma consumed_prefix:
  "newline \<notin> set buf \<Longrightarrow>
   \<exists>rest. lines_of (buf @ concat reads) = consumed parse buf reads @ rest
        \<and> (rest \<noteq> [] \<longrightarrow> list_ex (finishing_line parse) (consumed parse buf reads))"
proof (induction reads arbitrary: buf)
  case Nil
  then show ?case by (simp add: lines_of_no_newline)
next
  case (Cons v reads)
  let ?ls = "lines_of (buf @ v)"
  let ?later = "lines_of (rest_of (buf @ v) @ concat reads)"
  have all: "lines_of (buf @ v @ concat reads) = ?ls @ ?later"
    using lines_of_append [of "buf @ v" "concat reads"] by simp
  show ?case
  proof (cases "list_ex (finishing_line parse) ?ls")
    case True
    then show ?thesis by (simp add: all)
  next
    case False
    from Cons.IH [OF newline_notin_rest_of, of "buf @ v"]
    obtain rest where rest: "?later = consumed parse (rest_of (buf @ v)) reads @ rest"
      "rest \<noteq> [] \<longrightarrow> list_ex (finishing_line parse) (consumed parse (rest_of (buf @ v)) reads)"
      by blast
    from False rest show ?thesis
      by (intro exI [of _ rest]) (simp add: all)
  qed
qed

lemma after_first_finishing:
  assumes "list_ex (finishing_line parse) c"
  shows "set rest \<subseteq> set (tl (dropWhile (\<lambda>l. \<not> finishing_line parse l) (c @ rest)))"
proof -
  from assms obtain x where x: "x \<in> set c" "finishing_line parse x"
    by (auto simp: list_ex_iff)
  then have app: "dropWhile (\<lambda>l. \<not> finishing_line parse l) (c @ rest) =
      dropWhile (\<lambda>l. \<not> finishing_line parse l) c @ rest"
    by (intro dropWhile_append1) simp_all
  from x have "dropWhile (\<lambda>l. \<not> finishing_line parse l) c \<noteq> []"
    by (auto simp: dropWhile_eq_Nil_conv)
  then show ?thesis
    unfolding app by (cases "dropWhile (\<lambda>l. \<not> finishing_line parse l) c") auto
qed

lemma map_filter_no_event:
  "\<forall>l \<in> set rest. f l = None \<Longrightarrow> List.map_filter f (c @ rest) = List.map_filter f c"
  by (induction c) (auto simp: List.map_filter_def filter_empty_conv)

lemma consumed_events:
  assumes "\<forall>l \<in> set (tl (dropWhile (\<lambda>l. \<not> finishing_line parse l) (lines_of (concat reads)))).
             stream_event_of_line parse l = None"
  shows "List.map_filter (stream_event_of_line parse) (consumed parse [] reads) =
         stream_events parse (concat reads)"
proof -
  from consumed_prefix [of "[]" reads parse]
  obtain rest where rest: "lines_of (concat reads) = consumed parse [] reads @ rest"
    "rest \<noteq> [] \<longrightarrow> list_ex (finishing_line parse) (consumed parse [] reads)"
    by auto
  have "\<forall>l \<in> set rest. stream_event_of_line parse l = None"
  proof (cases "rest = []")
    case True
    then show ?thesis by simp
  next
    case False
    with rest(2) have "list_ex (finishing_line parse) (consumed parse [] reads)" by simp
    from after_first_finishing [OF this, of rest] assms show ?thesis
      unfolding rest(1) by blast
  qed
  then show ?thesis
    unfolding stream_events_def rest(1) by (simp add: map_filter_no_event)
qed

text \<open>
  C3, amended.  For a stream in which no successfully parsed event follows the first line
  that bears a finish reason (empty lines and lines that do not parse may follow it): what
  is written is chunk objects and then the sentinel; there is one chunk per successfully
  parsed event of a newline-terminated \<^verbatim>\<open>data:\<close> line, in order, with or without a
  \<^verbatim>\<open>text\<close> field; its content is the event's text (empty when absent) and its finish
  reason is the event's (null when absent).
\<close>

theorem one_chunk_per_parsed_event:
  assumes "\<forall>l \<in> set (tl (dropWhile (\<lambda>l. \<not> finishing_line parse l) (lines_of (concat reads)))).
             stream_event_of_line parse l = None"
  shows "handleStreamingResponse parse rt u t (Some reads) m =
           map Data (chunks_of (handleStreamingResponse parse rt u t (Some reads) m)) @ [DONE]
         \<and> map delta_content (chunks_of (handleStreamingResponse parse rt u t (Some reads) m)) =
           map text_or_empty (stream_events parse (concat reads))
         \<and> map choice_finish_reason
             (chunks_of (handleStreamingResponse parse rt u t (Some reads) m)) =
           map reason_or_null (stream_events parse (concat reads))"
proof -
  let ?init = "\<lparr>written = [], streamFinished = False, uuid_calls = u, clock_reads = t\<rparr>"
  let ?w = "written (run parse rt m ?init (consumed parse [] reads))"
  have out: "handleStreamingResponse parse rt u t (Some reads) m = ?w @ [DONE]"
    by (rule handleStreamingResponse_run)
  have "DONE \<notin> set ?w"
    by (rule run_no_DONE) simp
  then have shape: "map Data (chunks_of ?w) = ?w"
    by (rule map_Data_chunks_of)
  have chunks: "chunks_of (?w @ [DONE]) = chunks_of ?w"
    by (simp add: chunks_of_append)
  show ?thesis
    unfolding out chunks
    by (simp add: shape run_contents run_reasons consumed_events [OF assms])
qed

lemma framed_scenario_B_lines:
  \<open>lines_of (concat [line_Hel @ blank_line, line_lo @ blank_line, line_stop @ blank_line]) =
     [''data: {"text":"Hel"}'', '''', ''data: {"text":"lo"}'', '''',
      ''data: {"finish_reason":"stop"}'', '''']\<close>
  by (simp add: lines_of_def blank_line_def sample_defs)

lemma scenario_B_events:
  \<open>stream_event_of_line sample_JSON_parse ''data: {"text":"Hel"}'' =
     Some \<lparr>sse_text = Some ''Hel'', sse_finish_reason = Absent\<rparr>\<close>
  \<open>stream_event_of_line sample_JSON_parse ''data: {"text":"lo"}'' =
     Some \<lparr>sse_text = Some ''lo'', sse_finish_reason = Absent\<rparr>\<close>
  \<open>stream_event_of_line sample_JSON_parse ''data: {"finish_reason":"stop"}'' =
     Some \<lparr>sse_text = None, sse_finish_reason = Reason ''stop''\<rparr>\<close>
  \<open>stream_event_of_line sample_JSON_parse '''' = None\<close>
  by (simp_all add: stream_event_of_line_def sample_defs)

theorem one_chunk_per_parsed_event_witness:
  \<open>tl (dropWhile (\<lambda>l. \<not> finishing_line sample_JSON_parse l)
        (lines_of (concat [line_Hel @ blank_line, line_lo @ blank_line, line_stop @ blank_line])))
     = ['''']
   \<and> stream_event_of_line sample_JSON_parse '''' = None
   \<and> map delta_content (chunks_of (handleStreamingResponse sample_JSON_parse sample_runtime 1 0
         (Some [line_Hel @ blank_line, line_lo @ blank_line, line_stop @ blank_line]) ''gpt-4o''))
       = [''Hel'', ''lo'', '''']
   \<and> map choice_finish_reason (chunks_of (handleStreamingResponse sample_JSON_parse
         sample_runtime 1 0
         (Some [line_Hel @ blank_line, line_lo @ blank_line, line_stop @ blank_line]) ''gpt-4o''))
       = [None, None, Some ''stop'']\<close>
proof -
  let ?reads = "[line_Hel @ blank_line, line_lo @ blank_line, line_stop @ blank_line]"
  have after: "tl (dropWhile (\<lambda>l. \<not> finishing_line sample_JSON_parse l)
      (lines_of (concat ?reads))) = ['''']"
    unfolding framed_scenario_B_lines
    by (simp add: finishing_line_def scenario_B_events reason_or_null_def)
  have h: "\<forall>l \<in> set (tl (dropWhile (\<lambda>l. \<not> finishing_line sample_JSON_parse l)
      (lines_of (concat ?reads)))). stream_event_of_line sample_JSON_parse l = None"
    unfolding after by (simp add: scenario_B_events)
  have ev: "stream_events sample_JSON_parse (concat ?reads) =
      [\<lparr>sse_text = Some ''Hel'', sse_finish_reason = Absent\<rparr>,
       \<lparr>sse_text = Some ''lo'', sse_finish_reason = Absent\<rparr>,
       \<lparr>sse_text = None, sse_finish_reason = Reason ''stop''\<rparr>]"
    unfolding stream_events_def framed_scenario_B_lines
    by (simp add: List.map_filter_simps scenario_B_events)
  from one_chunk_per_parsed_event [OF h, of sample_runtime 1 0 "''gpt-4o''"] after
  show ?thesis
    unfolding ev
    by (simp add: text_or_empty_def reason_or_null_def scenario_B_events)
qed

section \<open>Streaming: what happens after a finish reason\<close>

text \<open>The outer loop does stop: reads after one that completed a finish-reason line are not taken.\<close>

lemma later_reads_not_taken:
  "list_ex (finishing_line parse) (lines_of v) \<Longrightarrow>
     handleStreamingResponse parse rt u t (Some (v # reads)) m =
     handleStreamingResponse parse rt u t (Some [v]) m"
  by (simp add: handleStreamingResponse_run)

text \<open>
  C1.  The specification: once an event with a finish reason has been handled, no later vendor
  event is processed or emitted, even when its line arrived in the same read.  The code
  sets \<^verbatim>\<open>streamFinished\<close>, which only the outer loop tests; the inner loop goes on through the
  buffer.  One read that holds a finish-reason line and then a text line: the text line is
  emitted as a second chunk before the sentinel.
\<close>

theorem finish_reason_then_text_in_one_read:
  "handleStreamingResponse sample_JSON_parse sample_runtime 1 0
     (Some [line_stop @ line_x]) ''gpt-4o'' =
   [Data \<lparr>chunk_id = ''chatcmpl-uuid-1'', chunk_object = ''chat.completion.chunk'',
           chunk_created = 1700000000, chunk_model = ''gpt-4o'', choice_index = 0,
           delta_content = [], choice_finish_reason = Some ''stop''\<rparr>,
    Data \<lparr>chunk_id = ''chatcmpl-uuid-2'', chunk_object = ''chat.completion.chunk'',
           chunk_created = 1700000000, chunk_model = ''gpt-4o'', choice_index = 0,
           delta_content = ''x'', choice_finish_reason = None\<rparr>,
    DONE]"
  by (simp add: stream_eval)

section \<open>Streaming: where the reads are cut\<close>

text \<open>
  C4.  The specification: the output does not depend on where the vendor's bytes are cut into reads.
  The same text, cut after the finish-reason line or not at all, gives two outputs: the
  line after the finish reason is emitted when it arrives in the same read and is never
  read otherwise.  (\<open>streaming_split_invariant\<close> above: the cuts do not matter when no
  complete line follows the finish reason.)
\<close>

theorem split_after_finish_reason_changes_output:
  "concat [line_stop @ line_x] = concat [line_stop, line_x]
   \<and> handleStreamingResponse sample_JSON_parse sample_runtime 1 0
        (Some [line_stop, line_x]) ''gpt-4o'' =
      [Data \<lparr>chunk_id = ''chatcmpl-uuid-1'', chunk_object = ''chat.completion.chunk'',
              chunk_created = 1700000000, chunk_model = ''gpt-4o'', choice_index = 0,
              delta_content = [], choice_finish_reason = Some ''stop''\<rparr>,
       DONE]
   \<and> handleStreamingResponse sample_JSON_parse sample_runtime 1 0
        (Some [line_stop @ line_x]) ''gpt-4o'' \<noteq>
      handleStreamingResponse sample_JSON_parse sample_runtime 1 0
        (Some [line_stop, line_x]) ''gpt-4o''"
  by (simp add: stream_eval)

section \<open>A final line without a newline\<close>

lemma consumed_extra_read_no_newline:
  "newline \<notin> set buf \<Longrightarrow> newline \<notin> set t \<Longrightarrow>
     consumed parse buf (reads @ [t]) = consumed parse buf reads"
proof (induction reads arbitrary: buf)
  case Nil
  then show ?case by (simp add: lines_of_no_newline)
next
  case (Cons v reads)
  from Cons.IH [OF newline_notin_rest_of Cons.prems(2)] show ?case by simp
qed

lemma split_middle: "split (a @ c # b) c = split a c @ split b c"
  by (induction a) (auto split: list.splits simp: split_not_Nil)

lemma parseSSEResponse_final_line:
  assumes "newline \<notin> set tail"
  shows "parseSSEResponse parse (s @ newline # tail) =
           parseSSEResponse parse s
           @ (case spec_event_of_line parse tail of None \<Rightarrow> [] | Some d \<Rightarrow> text_or_empty d)"
proof -
  have "split (s @ newline # tail) newline = split s newline @ [tail]"
    using assms by (simp add: split_middle split_no_sep)
  then show ?thesis
    by (simp add: parseSSEResponse_def addLine_event)
qed

text \<open>
  C10.  In streaming mode what follows the last newline is dropped when the transport ends:
  a last read, or the end of the last read, that holds no newline changes nothing in what
  is written.  \<^verbatim>\<open>parseSSEResponse\<close> does process the final unterminated line: it adds
  that line's text.  So the two modes differ on the same bytes: for \<^verbatim>\<open>Hel\<close> terminated and
  \<^verbatim>\<open>lo\<close> unterminated, streaming emits only \<^verbatim>\<open>Hel\<close>, the completion holds \<^verbatim>\<open>Hello\<close>.
\<close>

theorem unterminated_final_line:
  assumes "newline \<notin> set tail"
  shows "handleStreamingResponse parse rt u t (Some (reads @ [tail])) m =
           handleStreamingResponse parse rt u t (Some reads) m
         \<and> handleStreamingResponse parse rt u t (Some (reads @ [c @ tail])) m =
           handleStreamingResponse parse rt u t (Some (reads @ [c])) m
         \<and> parseSSEResponse parse (s @ newline # tail) =
           parseSSEResponse parse s
           @ (case spec_event_of_line parse tail of None \<Rightarrow> [] | Some d \<Rightarrow> text_or_empty d)
         \<and> map delta_content (chunks_of (handleStreamingResponse sample_JSON_parse
               sample_runtime 1 0 (Some [line_Hel, line_lo_unterminated]) ''gpt-4o'')) = [''Hel'']
         \<and> message_content (handleNonStreamingResponse sample_JSON_parse sample_runtime 1 0
               (Some [line_Hel, line_lo_unterminated]) ''gpt-4o'') = ''Hello''"
proof (intro conjI)
  show "handleStreamingResponse parse rt u t (Some (reads @ [tail])) m =
           handleStreamingResponse parse rt u t (Some reads) m"
    using assms by (simp add: handleStreamingResponse_run consumed_extra_read_no_newline)
  show "handleStreamingResponse parse rt u t (Some (reads @ [c @ tail])) m =
           handleStreamingResponse parse rt u t (Some (reads @ [c])) m"
    using assms by (simp add: handleStreamingResponse_run consumed_tail_no_newline)
  show "parseSSEResponse parse (s @ newline # tail) =
           parseSSEResponse parse s
           @ (case spec_event_of_line parse tail of None \<Rightarrow> [] | Some d \<Rightarrow> text_or_empty d)"
    by (rule parseSSEResponse_final_line [OF assms])
  show "map delta_content (chunks_of (handleStreamingResponse sample_JSON_parse
               sample_runtime 1 0 (Some [line_Hel, line_lo_unterminated]) ''gpt-4o'')) = [''Hel'']"
    by (simp add: stream_eval line_lo_unterminated_def)
  show "message_content (handleNonStreamingResponse sample_JSON_parse sample_runtime 1 0
               (Some [line_Hel, line_lo_unterminated]) ''gpt-4o'') = ''Hello''"
    by (simp add: handleNonStreamingResponse_def parseSSEResponse_def addLine_def sample_defs
          line_lo_unterminated_def)
qed

theorem unterminated_final_line_witness:
  \<open>newline \<notin> set line_lo_unterminated
   \<and> handleStreamingResponse sample_JSON_parse sample_runtime 1 0
        (Some [line_Hel, line_lo_unterminated]) ''gpt-4o'' =
      [Data \<lparr>chunk_id = ''chatcmpl-uuid-1'', chunk_object = ''chat.completion.chunk'',
              chunk_created = 1700000000, chunk_model = ''gpt-4o'', choice_index = 0,
              delta_content = ''Hel'', choice_finish_reason = None\<rparr>,
       DONE]
   \<and> parseSSEResponse sample_JSON_parse (''data: {"text":"Hel"}'' @ newline # line_lo_unterminated)
       = ''Hello''\<close>
proof -
  have h: "newline \<notin> set line_lo_unterminated"
    by (simp add: line_lo_unterminated_def newline_def)
  have one: "handleStreamingResponse sample_JSON_parse sample_runtime 1 0
        (Some [line_Hel]) ''gpt-4o'' =
      [Data \<lparr>chunk_id = ''chatcmpl-uuid-1'', chunk_object = ''chat.completion.chunk'',
              chunk_created = 1700000000, chunk_model = ''gpt-4o'', choice_index = 0,
              delta_content = ''Hel'', choice_finish_reason = None\<rparr>,
       DONE]"
    by (simp add: stream_eval)
  have first: \<open>parseSSEResponse sample_JSON_parse ''data: {"text":"Hel"}'' = ''Hel''\<close>
    by (simp add: parseSSEResponse_def addLine_def sample_defs)
  have last: \<open>spec_event_of_line sample_JSON_parse line_lo_unterminated =
      Some \<lparr>sse_text = Some ''lo'', sse_finish_reason = Absent\<rparr>\<close>
    by (simp add: spec_event_of_line_def line_lo_unterminated_def sample_defs)
  have a: "handleStreamingResponse sample_JSON_parse sample_runtime 1 0
        (Some ([line_Hel] @ [line_lo_unterminated])) ''gpt-4o'' =
      handleStreamingResponse sample_JSON_parse sample_runtime 1 0 (Some [line_Hel]) ''gpt-4o''"
    by (rule conjunct1 [OF unterminated_final_line [OF h]])
  have b: \<open>parseSSEResponse sample_JSON_parse
        (''data: {"text":"Hel"}'' @ newline # line_lo_unterminated) =
      parseSSEResponse sample_JSON_parse ''data: {"text":"Hel"}''
      @ (case spec_event_of_line sample_JSON_parse line_lo_unterminated of
           None \<Rightarrow> [] | Some d \<Rightarrow> text_or_empty d)\<close>
    by (rule conjunct1 [OF conjunct2 [OF conjunct2 [OF unterminated_final_line [OF h]]]])
  from a b h one first last show ?thesis
    by (simp add: text_or_empty_def)
qed

section \<open>The id, model and timestamp of what is returned\<close>

lemma run_model:
  "\<forall>c \<in> set (chunks_of (written st)). chunk_model c = m \<Longrightarrow>
   \<forall>c \<in> set (chunks_of (written (run parse rt m st ls))). chunk_model c = m"
proof (induction ls arbitrary: st)
  case Nil
  then show ?case by simp
next
  case (Cons l ls)
  have "\<forall>c \<in> set (chunks_of (written (handleLine parse rt m (trim l) st))). chunk_model c = m"
    using Cons.prems
    by (cases "stream_event_of_line parse l") (simp_all add: handleLine_written chunks_of_append)
  from Cons.IH [OF this] show ?case by simp
qed

lemma run_ids_created:
  "\<exists>ks ts. sorted_wrt (<) ks \<and> sorted_wrt (<) ts
       \<and> (\<forall>k \<in> set ks. uuid_calls st \<le> k) \<and> (\<forall>n \<in> set ts. clock_reads st \<le> n)
       \<and> map chunk_id (chunks_of (written (run parse rt m st ls))) =
           map chunk_id (chunks_of (written st)) @ map (\<lambda>k. ''chatcmpl-'' @ uuidv4 rt k) ks
       \<and> map chunk_created (chunks_of (written (run parse rt m st ls))) =
           map chunk_created (chunks_of (written st)) @ map (\<lambda>n. Date_now rt n div 1000) ts"
proof (induction ls arbitrary: st)
  case Nil
  have "sorted_wrt (<) ([] :: nat list)" by simp
  then show ?case by (intro exI [of _ "[]"]) simp
next
  case (Cons l ls)
  let ?st1 = "handleLine parse rt m (trim l) st"
  from Cons.IH [of ?st1] obtain ks ts where
    srt: "sorted_wrt (<) ks" "sorted_wrt (<) ts"
    and lo: "\<forall>k \<in> set ks. uuid_calls ?st1 \<le> k" "\<forall>n \<in> set ts. clock_reads ?st1 \<le> n"
    and ids: "map chunk_id (chunks_of (written (run parse rt m ?st1 ls))) =
           map chunk_id (chunks_of (written ?st1)) @ map (\<lambda>k. ''chatcmpl-'' @ uuidv4 rt k) ks"
    and cr: "map chunk_created (chunks_of (written (run parse rt m ?st1 ls))) =
           map chunk_created (chunks_of (written ?st1)) @ map (\<lambda>n. Date_now rt n div 1000) ts"
    by blast
  show ?case
  proof (cases "stream_event_of_line parse l")
    case None
    have w: "written ?st1 = written st"
      by (simp add: handleLine_written None)
    have "\<forall>k \<in> set ks. uuid_calls st \<le> k" "\<forall>n \<in> set ts. clock_reads st \<le> n"
      using lo handleLine_counters(1,2) [of st parse rt m l] by (auto intro: order_trans)
    with srt ids cr w show ?thesis
      by (intro exI [of _ ks] exI [of _ ts]) simp
  next
    case (Some d)
    then have ev: "stream_event_of_line parse l \<noteq> None" by simp
    have u: "uuid_calls ?st1 = Suc (uuid_calls st)" "clock_reads ?st1 = Suc (clock_reads st)"
      by (rule handleLine_counters(3) [OF ev], rule handleLine_counters(4) [OF ev])
    have w: "map chunk_id (chunks_of (written ?st1)) =
        map chunk_id (chunks_of (written st)) @ [''chatcmpl-'' @ uuidv4 rt (uuid_calls st)]"
      "map chunk_created (chunks_of (written ?st1)) =
        map chunk_created (chunks_of (written st)) @ [Date_now rt (clock_reads st) div 1000]"
      by (simp_all add: handleLine_written Some chunks_of_append)
    from lo u have gt: "\<forall>k \<in> set ks. uuid_calls st < k" "\<forall>n \<in> set ts. clock_reads st < n"
      by auto
    with srt have "sorted_wrt (<) (uuid_calls st # ks)" "sorted_wrt (<) (clock_reads st # ts)"
      by simp_all
    moreover from gt have "\<forall>k \<in> set (uuid_calls st # ks). uuid_calls st \<le> k"
      "\<forall>n \<in> set (clock_reads st # ts). clock_reads st \<le> n"
      by auto
    ultimately show ?thesis
      using ids cr w
      by (intro exI [of _ "uuid_calls st # ks"] exI [of _ "clock_reads st # ts"]) simp
  qed
qed

lemma increasing_distinct: "sorted_wrt (<) (ks :: nat list) \<Longrightarrow> distinct ks"
  by (induction ks) auto

lemma numberToString_not_Nil: "numberToString n \<noteq> []"
  by (subst numberToString.simps) simp

lemma digitChar_inj: "a < 10 \<Longrightarrow> b < 10 \<Longrightarrow> digitChar a = digitChar b \<Longrightarrow> a = b"
proof -
  assume a: "a < 10" and b: "b < 10" and eq: "digitChar a = digitChar b"
  have d: "distinct ''0123456789''" by simp
  from a b eq have "''0123456789'' ! a = ''0123456789'' ! b" by simp
  with d a b show "a = b" by (simp add: nth_eq_iff_index_eq)
qed

lemma numberToString_inj: "numberToString a = numberToString b \<Longrightarrow> a = b"
proof (induction a arbitrary: b rule: numberToString.induct)
  case (1 n)
  show ?case
  proof (cases "n < 10")
    case small: True
    show ?thesis
    proof (cases "b < 10")
      case True
      with small "1.prems" show ?thesis
        by (simp add: numberToString.simps [of n] numberToString.simps [of b] digitChar_inj
              del: digitChar.simps)
    next
      case False
      with small "1.prems" numberToString_not_Nil [of "b div 10"] show ?thesis
        by (simp add: numberToString.simps [of n] numberToString.simps [of b]
              del: digitChar.simps)
    qed
  next
    case big: False
    show ?thesis
    proof (cases "b < 10")
      case True
      with big "1.prems" numberToString_not_Nil [of "n div 10"] show ?thesis
        by (simp add: numberToString.simps [of n] numberToString.simps [of b]
              del: digitChar.simps)
    next
      case False
      with big "1.prems" have eqs: "numberToString (n div 10) = numberToString (b div 10)"
        "digitChar n = digitChar b"
        by (simp_all add: numberToString.simps [of n] numberToString.simps [of b]
              del: digitChar.simps)
      from "1.IH" [OF big eqs(1)] have d: "n div 10 = b div 10" .
      have "digitChar (n mod 10) = digitChar (b mod 10)"
        using eqs(2) by simp
      then have m: "n mod 10 = b mod 10"
        by (intro digitChar_inj) simp_all
      from d m show ?thesis
        by (metis mult_div_mod_eq)
    qed
  qed
qed

lemma sample_uuidv4_inj: "inj (uuidv4 sample_runtime)"
  by (auto simp: inj_def sample_runtime_def dest: numberToString_inj)

text \<open>
  C2, as the specification has it: all chunks of one streaming response carry one and the same id.
  The code calls \<^verbatim>\<open>uuidv4()\<close> inside the object literal of each chunk: with a generator
  whose calls give different values, the chunks of Scenario B carry three different ids.
\<close>

theorem chunk_ids_differ:
  "map chunk_id (chunks_of (handleStreamingResponse sample_JSON_parse sample_runtime 1 0
      (Some [line_Hel, line_lo, line_stop]) ''gpt-4o'')) =
     [''chatcmpl-uuid-1'', ''chatcmpl-uuid-2'', ''chatcmpl-uuid-3'']
   \<and> ''chatcmpl-uuid-1'' \<noteq> ''chatcmpl-uuid-2''"
  by (simp add: stream_eval)

text \<open>
  C2, amended.  Every streamed chunk carries the model id the caller asked for, a creation
  time \<open>Date.now() div 1000\<close> read when the chunk is built, and an id \<^verbatim>\<open>chatcmpl-\<close> followed
  by the result of a \<^verbatim>\<open>uuidv4()\<close> call of its own, the calls being different ones, in the
  order of the chunks: the ids of a response are pairwise different when \<^verbatim>\<open>uuidv4\<close> does not
  repeat.  The non-streaming completion carries \<^verbatim>\<open>chatcmpl-\<close> and one uuid, the model id
  asked for and \<open>Date.now() div 1000\<close>.
\<close>

theorem chunk_identity_fields:
  "(\<exists>ks ts. sorted_wrt (<) ks \<and> sorted_wrt (<) ts
       \<and> (\<forall>k \<in> set ks. u \<le> k) \<and> (\<forall>n \<in> set ts. t \<le> n)
       \<and> map chunk_id (chunks_of (handleStreamingResponse parse rt u t body m)) =
           map (\<lambda>k. ''chatcmpl-'' @ uuidv4 rt k) ks
       \<and> map chunk_created (chunks_of (handleStreamingResponse parse rt u t body m)) =
           map (\<lambda>n. Date_now rt n div 1000) ts)
   \<and> (\<forall>c \<in> set (chunks_of (handleStreamingResponse parse rt u t body m)). chunk_model c = m)
   \<and> (inj (uuidv4 rt) \<longrightarrow>
        distinct (map chunk_id (chunks_of (handleStreamingResponse parse rt u t body m))))
   \<and> completion_id (handleNonStreamingResponse parse rt u t body m) = ''chatcmpl-'' @ uuidv4 rt u
   \<and> completion_model (handleNonStreamingResponse parse rt u t body m) = m
   \<and> completion_created (handleNonStreamingResponse parse rt u t body m) =
       Date_now rt t div 1000"
proof -
  let ?out = "handleStreamingResponse parse rt u t body m"
  let ?init = "\<lparr>written = [], streamFinished = False, uuid_calls = u, clock_reads = t\<rparr>"
  have stream: "\<exists>ls. chunks_of ?out = chunks_of (written (run parse rt m ?init ls))"
  proof (cases body)
    case None
    have "chunks_of ?out = chunks_of (written (run parse rt m ?init []))"
      by (simp add: None handleStreamingResponse_def)
    then show ?thesis ..
  next
    case (Some reads)
    have "chunks_of ?out = chunks_of (written (run parse rt m ?init (consumed parse [] reads)))"
      by (simp add: Some handleStreamingResponse_run chunks_of_append)
    then show ?thesis ..
  qed
  then obtain ls where out: "chunks_of ?out = chunks_of (written (run parse rt m ?init ls))" ..
  from run_ids_created [where st = ?init and rt = rt and parse = parse and m = m and ls = ls] obtain ks ts where
    srt: "sorted_wrt (<) ks" "sorted_wrt (<) ts"
    and lo: "\<forall>k \<in> set ks. u \<le> k" "\<forall>n \<in> set ts. t \<le> n"
    and ids: "map chunk_id (chunks_of ?out) = map (\<lambda>k. ''chatcmpl-'' @ uuidv4 rt k) ks"
    and cr: "map chunk_created (chunks_of ?out) = map (\<lambda>n. Date_now rt n div 1000) ts"
    unfolding out by auto
  have first: "\<exists>ks ts. sorted_wrt (<) ks \<and> sorted_wrt (<) ts
       \<and> (\<forall>k \<in> set ks. u \<le> k) \<and> (\<forall>n \<in> set ts. t \<le> n)
       \<and> map chunk_id (chunks_of ?out) = map (\<lambda>k. ''chatcmpl-'' @ uuidv4 rt k) ks
       \<and> map chunk_created (chunks_of ?out) = map (\<lambda>n. Date_now rt n div 1000) ts"
    using srt lo ids cr by blast
  have model: "\<forall>c \<in> set (chunks_of ?out). chunk_model c = m"
    unfolding out by (rule run_model) simp
  have dist: "inj (uuidv4 rt) \<longrightarrow> distinct (map chunk_id (chunks_of ?out))"
  proof
    assume inj: "inj (uuidv4 rt)"
    have "inj (\<lambda>k. ''chatcmpl-'' @ uuidv4 rt k)"
      using inj by (auto simp: inj_def)
    moreover from srt(1) have "distinct ks"
      by (rule increasing_distinct)
    ultimately show "distinct (map chunk_id (chunks_of ?out))"
      unfolding ids by (simp add: distinct_map inj_on_def inj_def)
  qed
  have rest: "completion_id (handleNonStreamingResponse parse rt u t body m) =
        ''chatcmpl-'' @ uuidv4 rt u"
    "completion_model (handleNonStreamingResponse parse rt u t body m) = m"
    "completion_created (handleNonStreamingResponse parse rt u t body m) = Date_now rt t div 1000"
    by (simp_all add: handleNonStreamingResponse_def Let_def)
  from first model dist rest show ?thesis by blast
qed

theorem chunk_identity_fields_witness:
  "inj (uuidv4 sample_runtime)
   \<and> distinct (map chunk_id (chunks_of (handleStreamingResponse sample_JSON_parse
         sample_runtime 1 0 (Some [line_Hel, line_lo, line_stop]) ''gpt-4o'')))
   \<and> map chunk_model (chunks_of (handleStreamingResponse sample_JSON_parse
         sample_runtime 1 0 (Some [line_Hel, line_lo, line_stop]) ''gpt-4o'')) =
       [''gpt-4o'', ''gpt-4o'', ''gpt-4o'']
   \<and> completion_id (handleNonStreamingResponse sample_JSON_parse sample_runtime 1 0
         (Some [line_Hel, line_lo, line_stop]) ''gpt-4o'') = ''chatcmpl-uuid-1''
   \<and> completion_created (handleNonStreamingResponse sample_JSON_parse sample_runtime 1 0
         (Some [line_Hel, line_lo, line_stop]) ''gpt-4o'') = 1700000000"
proof -
  note th = chunk_identity_fields [where u = 1 and t = 0 and rt = sample_runtime
      and parse = sample_JSON_parse and body = "Some [line_Hel, line_lo, line_stop]"
      and m = "''gpt-4o''"]
  have d: "distinct (map chunk_id (chunks_of (handleStreamingResponse sample_JSON_parse
         sample_runtime 1 0 (Some [line_Hel, line_lo, line_stop]) ''gpt-4o'')))"
    using th sample_uuidv4_inj by blast
  have i: "completion_id (handleNonStreamingResponse sample_JSON_parse sample_runtime 1 0
         (Some [line_Hel, line_lo, line_stop]) ''gpt-4o'') = ''chatcmpl-'' @ uuidv4 sample_runtime 1"
    using th by blast
  have c: "completion_created (handleNonStreamingResponse sample_JSON_parse sample_runtime 1 0
         (Some [line_Hel, line_lo, line_stop]) ''gpt-4o'') = Date_now sample_runtime 0 div 1000"
    using th by blast
  have ms: "map chunk_model (chunks_of (handleStreamingResponse sample_JSON_parse
         sample_runtime 1 0 (Some [line_Hel, line_lo, line_stop]) ''gpt-4o'')) =
       [''gpt-4o'', ''gpt-4o'', ''gpt-4o'']"
    by (simp add: stream_eval)
  have v: "''chatcmpl-'' @ uuidv4 sample_runtime 1 = ''chatcmpl-uuid-1''"
    "Date_now sample_runtime 0 div 1000 = 1700000000"
    by (simp_all add: sample_runtime_def numberToString.simps)
  from sample_uuidv4_inj d ms i c show ?thesis
    unfolding v by blast
qed

end
